theory Spec2Isabelle
  imports Main "HOL-Library.Sublist" "HOL-Library.Extended_Nat" "HOL-Library.AList"
begin

section \<open>Python strings and path helpers used by \<^verbatim>\<open>xgboost_ray/main.py\<close>\<close>

text \<open>
  \<^verbatim>\<open>str(n)\<close> for a non-negative integer: its decimal digits, most significant first.
\<close>

definition digit_char :: "nat \<Rightarrow> char" where
  "digit_char d = char_of (48 + d)"

definition digit_val :: "char \<Rightarrow> nat" where
  "digit_val c = of_char c - 48"

function str_nat :: "nat \<Rightarrow> string" where
  "str_nat n = (if n < 10 then [digit_char n] else str_nat (n div 10) @ [digit_char (n mod 10)])"
  by pat_completeness auto
termination
  by (relation "measure (\<lambda>n. n)") auto

declare str_nat.simps [simp del]

text \<open>\<^verbatim>\<open>str(i)\<close> for any Python integer.\<close>

definition str_int :: "int \<Rightarrow> string" where
  "str_int i = (if i < 0 then CHR ''-'' # str_nat (nat (- i)) else str_nat (nat i))"

text \<open>
  The format specification \<^verbatim>\<open>{rank:05d}\<close> applied to a rank taken from
  \<^verbatim>\<open>range(num_actors)\<close>: decimal digits, padded on the left with zeros to width five,
  never truncated.
\<close>

definition zfill :: "nat \<Rightarrow> string \<Rightarrow> string" where
  "zfill w s = replicate (w - length s) (CHR ''0'') @ s"

definition format_05d :: "nat \<Rightarrow> string" where
  "format_05d n = zfill 5 (str_nat n)"

text \<open>\<^verbatim>\<open>s.startswith(p)\<close>.\<close>

definition startswith :: "string \<Rightarrow> string \<Rightarrow> bool" where
  "startswith s p = (take (length p) s = p)"

text \<open>\<^verbatim>\<open>s.endswith(p)\<close>.\<close>

definition endswith :: "string \<Rightarrow> string \<Rightarrow> bool" where
  "endswith s p = (length p \<le> length s \<and> drop (length s - length p) s = p)"

text \<open>
  \<^verbatim>\<open>os.path.join(a, b)\<close> of \<^verbatim>\<open>posixpath\<close> for two components: an absolute second
  component replaces the first; an empty first component, or one that already ends
  with the separator, is extended without a new separator.
\<close>

definition os_path_join :: "string \<Rightarrow> string \<Rightarrow> string" where
  "os_path_join a b =
     (if startswith b ''/'' then b
      else if a = [] \<or> endswith a ''/'' then a @ b
      else a @ ''/'' @ b)"

section \<open>Checkpoint file naming\<close>

text \<open>
  \<^verbatim>\<open>_checkpoint_file(path, prefix, rank)\<close>. The prefix is an optional string; Python's
  \<^verbatim>\<open>not prefix\<close> holds for \<^verbatim>\<open>None\<close> and for the empty string.
\<close>

definition falsy_str :: "string option \<Rightarrow> bool" where
  "falsy_str p = (case p of None \<Rightarrow> True | Some s \<Rightarrow> s = [])"

definition priv_checkpoint_file :: "string \<Rightarrow> string option \<Rightarrow> nat \<Rightarrow> string option" where
  "priv_checkpoint_file path pfx rank =
     (if falsy_str pfx then None
      else Some (os_path_join path (the pfx @ ''_'' @ format_05d rank @ ''.xgb'')))"

section \<open>Exceptions, outcomes of remote calls, observable world\<close>

text \<open>
  The exceptions that occur in \<^verbatim>\<open>main.py\<close>. \<open>RayActorError\<close> is what \<^verbatim>\<open>ray.get\<close> raises
  for a call on an actor whose process died; \<open>ExternalError\<close> stands for any error
  raised by a collaborator (data loader, tracker, training engine).
\<close>

datatype exn =
    RayActorError
  | RuntimeError string
  | TypeError string
  | AttributeError
  | IndexError
  | KeyError
  | ZeroDivisionError
  | ExternalError string

text \<open>
  What a method call on an actor can do: return a value, raise, or never answer
  because the actor process died during the call.
\<close>

datatype 'a outcome = Returns 'a | Raises exn | Dies

text \<open>Values of the opaque parameter dictionary handed to the training engine.\<close>

datatype pyval = StrV string | IntV int

type_synonym params = "(string \<times> pyval) list"

text \<open>
  A \<^verbatim>\<open>RayDMatrix\<close> handle (compared by value), the shard \<^verbatim>\<open>(x, y)\<close> its
  \<^verbatim>\<open>load_data(rank, num_actors)\<close> returns, and the \<^verbatim>\<open>xgb.DMatrix\<close> built from it.
\<close>

type_synonym handle = nat

type_synonym shard = "int list \<times> int list"

datatype dmatrix = DMatrix "int list" "int list"

type_synonym booster = nat

type_synonym evals_result = "(string \<times> int list) list"

text \<open>
  Training callbacks: the caller's own (opaque, identified by a number) and the
  closure returned by \<^verbatim>\<open>RayXGBoostActor._save_checkpoint_callback\<close>.
\<close>

datatype callback = UserCallback nat | SaveCheckpointCallback

text \<open>
  Keyword arguments. \<^verbatim>\<open>train\<close> reads the three checkpoint keys with
  \<^verbatim>\<open>kwargs.get\<close>; the actor reads and sets \<^verbatim>\<open>callbacks\<close> and \<^verbatim>\<open>xgb_model\<close>.
  A key that is absent is \<open>None\<close>.
\<close>

record kwargs =
  kw_checkpoint_prefix :: "string option option"
  kw_checkpoint_path :: "string option"
  kw_checkpoint_frequency :: "int option"
  kw_callbacks :: "callback list option"
  kw_xgb_model :: "string option"

text \<open>
  Calls to collaborators are recorded in a trace, so that their number and order
  can be stated; the checkpoint directory is the set of paths that exist.
\<close>

datatype event =
    EvSpawn nat nat int
  | EvDataLoad handle nat nat
  | EvTrackerStart nat
  | EvRabitInit "string list"
  | EvXgbTrain params dmatrix "(dmatrix \<times> string) list" "string option" "callback list"
  | EvSaveModel string int
  | EvRabitFinalize
  | EvRemove string

record world =
  files :: "string set"
  trace :: "event list"

definition emit :: "event \<Rightarrow> world \<Rightarrow> world" where
  "emit e w = w\<lparr>trace := trace w @ [e]\<rparr>"

text \<open>
  What the collaborators do during one training attempt: the identity
  \<^verbatim>\<open>id(self)\<close> of the actor of each rank, the result of the dataset handle's
  \<^verbatim>\<open>load_data(rank, num_actors)\<close>, the tracker's \<^verbatim>\<open>slave_envs()\<close> (or its failure to
  start), the result of \<^verbatim>\<open>xgb.rabit.init\<close> on each rank, and for the engine on each rank
  the number of boosting iterations it runs and how \<^verbatim>\<open>xgb.train\<close> ends after them.
\<close>

record attempt_env =
  ident_of :: "nat \<Rightarrow> nat"
  loader :: "handle \<Rightarrow> nat \<Rightarrow> nat \<Rightarrow> shard outcome"
  tracker :: "nat \<Rightarrow> exn + (string \<times> string) list"
  rabit_init :: "nat \<Rightarrow> unit outcome"
  engine :: "nat \<Rightarrow> nat \<times> (booster \<times> evals_result) outcome"

section \<open>The actor \<^verbatim>\<open>RayXGBoostActor\<close>\<close>

text \<open>
  The fields set by \<^verbatim>\<open>__init__\<close>, the identity of the object, and whether the actor
  process is still alive.
\<close>

record actor =
  rank :: nat
  num_actors :: nat
  checkpoint_prefix :: "string option"
  checkpoint_path :: string
  checkpoint_frequency :: int
  data :: "handle \<rightharpoonup> dmatrix"
  ident :: nat
  alive :: bool

type_synonym 'a act = "actor \<Rightarrow> world \<Rightarrow> 'a outcome \<times> actor \<times> world"

text \<open>Sequencing of two steps of a method: an exception or a death ends the method.\<close>

definition bind_act :: "'a act \<Rightarrow> ('a \<Rightarrow> 'b act) \<Rightarrow> 'b act" where
  "bind_act m f a w =
     (case m a w of
        (Returns v, a1, w1) \<Rightarrow> f v a1 w1
      | (Raises e, a1, w1) \<Rightarrow> (Raises e, a1, w1)
      | (Dies, a1, w1) \<Rightarrow> (Dies, a1, w1))"

text \<open>The property \<^verbatim>\<open>checkpoint_file\<close>.\<close>

definition checkpoint_file :: "actor \<Rightarrow> string option" where
  "checkpoint_file a =
     priv_checkpoint_file (checkpoint_path a) (checkpoint_prefix a) (rank a)"

text \<open>
  \<^verbatim>\<open>Booster.save_model(fname)\<close> of the engine: a path is written (created or
  overwritten); anything that is not a path is rejected.
\<close>

definition save_model :: "string option \<Rightarrow> int \<Rightarrow> world \<Rightarrow> unit outcome \<times> world" where
  "save_model fname iteration w =
     (case fname of
        None \<Rightarrow> (Raises (TypeError ''fname must be a string''), w)
      | Some p \<Rightarrow> (Returns (), emit (EvSaveModel p iteration) (w\<lparr>files := insert p (files w)\<rparr>)))"

text \<open>
  The closure of \<^verbatim>\<open>_save_checkpoint_callback\<close>, called by the engine with the index of
  the current iteration. Python's \<^verbatim>\<open>%\<close> raises on a zero divisor and otherwise takes
  the sign of the divisor, as \<open>mod\<close> on \<open>int\<close> does.
\<close>

definition save_checkpoint_callback :: "actor \<Rightarrow> int \<Rightarrow> world \<Rightarrow> unit outcome \<times> world" where
  "save_checkpoint_callback a iteration w =
     (if checkpoint_frequency a = 0 then (Raises ZeroDivisionError, w)
      else if iteration mod checkpoint_frequency a = 0
        then save_model (checkpoint_file a) iteration w
      else (Returns (), w))"

text \<open>\<^verbatim>\<open>load_data\<close>: fetch this rank's shard from the handle and store the matrix.\<close>

definition load_data :: "attempt_env \<Rightarrow> handle \<Rightarrow> unit act" where
  "load_data env d a w =
     (let w1 = emit (EvDataLoad d (rank a) (num_actors a)) w in
      case loader env d (rank a) (num_actors a) of
        Returns (x, y) \<Rightarrow> (Returns (), a\<lparr>data := (data a)(d \<mapsto> DMatrix x y)\<rparr>, w1)
      | Raises e \<Rightarrow> (Raises e, a, w1)
      | Dies \<Rightarrow> (Dies, a, w1))"

text \<open>
  The guard of \<^verbatim>\<open>train\<close>: \<^verbatim>\<open>if d not in self._data: self.load_data(d)\<close>, followed by
  the lookup \<^verbatim>\<open>self._data[d]\<close>.
\<close>

definition ensure_loaded :: "attempt_env \<Rightarrow> handle \<Rightarrow> unit act" where
  "ensure_loaded env d a w =
     (if data a d = None then load_data env d a w else (Returns (), a, w))"

definition lookup_data :: "handle \<Rightarrow> dmatrix act" where
  "lookup_data d a w =
     (case data a d of None \<Rightarrow> (Raises KeyError, a, w) | Some m \<Rightarrow> (Returns m, a, w))"

fun load_evals ::
  "attempt_env \<Rightarrow> (handle \<times> string) list \<Rightarrow> (dmatrix \<times> string) list \<Rightarrow>
     ((dmatrix \<times> string) list) act" where
  "load_evals env [] local_evals a w = (Returns local_evals, a, w)"
| "load_evals env ((deval, name) # rest) local_evals a w =
     bind_act (ensure_loaded env deval) (\<lambda>_.
     bind_act (lookup_data deval) (\<lambda>m.
       load_evals env rest (local_evals @ [(m, name)]))) a w"

text \<open>
  The engine \<^verbatim>\<open>xgb.train\<close>: after each boosting iteration it calls the callbacks in
  order with the iteration index; an exception of a callback ends the training. The
  caller's own callbacks are taken not to touch the checkpoint files.
\<close>

fun run_callbacks :: "callback list \<Rightarrow> int \<Rightarrow> unit act" where
  "run_callbacks [] iteration a w = (Returns (), a, w)"
| "run_callbacks (UserCallback k # cbs) iteration a w = run_callbacks cbs iteration a w"
| "run_callbacks (SaveCheckpointCallback # cbs) iteration a w =
     (case save_checkpoint_callback a iteration w of
        (Returns _, w1) \<Rightarrow> run_callbacks cbs iteration a w1
      | (Raises e, w1) \<Rightarrow> (Raises e, a, w1)
      | (Dies, w1) \<Rightarrow> (Dies, a, w1))"

fun run_iterations :: "callback list \<Rightarrow> nat list \<Rightarrow> unit act" where
  "run_iterations cbs [] a w = (Returns (), a, w)"
| "run_iterations cbs (i # is) a w =
     bind_act (run_callbacks cbs (int i)) (\<lambda>_. run_iterations cbs is) a w"

definition xgb_train ::
  "attempt_env \<Rightarrow> params \<Rightarrow> dmatrix \<Rightarrow> (dmatrix \<times> string) list \<Rightarrow> kwargs \<Rightarrow>
     (booster \<times> evals_result) act" where
  "xgb_train env local_params local_dtrain local_evals kw a w =
     (let cbs = (case kw_callbacks kw of None \<Rightarrow> [] | Some c \<Rightarrow> c);
          w0 = emit (EvXgbTrain local_params local_dtrain local_evals (kw_xgb_model kw) cbs) w
      in bind_act (run_iterations cbs [0 ..< fst (engine env (rank a))])
           (\<lambda>_ a1 w1. (snd (engine env (rank a)), a1, w1)) a w0)"

text \<open>
  The statement \<^verbatim>\<open>with RabitContext(actor_id, args): body\<close>. \<^verbatim>\<open>__init__\<close> appends the
  task identifier to the arguments, \<^verbatim>\<open>__enter__\<close> calls \<^verbatim>\<open>xgb.rabit.init\<close>, and
  \<^verbatim>\<open>__exit__\<close> calls \<^verbatim>\<open>xgb.rabit.finalize\<close> when the body has returned or raised; it
  returns nothing, so an exception of the body goes on. A process that died runs
  no \<^verbatim>\<open>__exit__\<close>.
\<close>

definition rabit_task_arg :: "string \<Rightarrow> string" where
  "rabit_task_arg actor_id = ''DMLC_TASK_ID=[xgboost.ray]:'' @ actor_id"

definition rabit_context :: "attempt_env \<Rightarrow> string \<Rightarrow> string list \<Rightarrow> 'a act \<Rightarrow> 'a act" where
  "rabit_context env actor_id args body a w =
     (let w0 = emit (EvRabitInit (args @ [rabit_task_arg actor_id])) w in
      case rabit_init env (rank a) of
        Raises e \<Rightarrow> (Raises e, a, w0)
      | Dies \<Rightarrow> (Dies, a, w0)
      | Returns _ \<Rightarrow>
          (case body a w0 of
             (Dies, a1, w1) \<Rightarrow> (Dies, a1, w1)
           | (r, a1, w1) \<Rightarrow> (r, a1, emit EvRabitFinalize w1)))"

text \<open>
  \<^verbatim>\<open>os.path.exists(self.checkpoint_file)\<close>: a \<^verbatim>\<open>TypeError\<close> when the property is
  \<^verbatim>\<open>None\<close>.
\<close>

definition checkpoint_exists :: "(string \<times> bool) act" where
  "checkpoint_exists a w =
     (case checkpoint_file a of
        None \<Rightarrow> (Raises (TypeError ''stat: path should be string, bytes, os.PathLike or integer, not NoneType''), a, w)
      | Some p \<Rightarrow> (Returns (p, p \<in> files w), a, w))"

text \<open>The method \<^verbatim>\<open>train\<close> of the actor.\<close>

definition actor_train ::
  "attempt_env \<Rightarrow> string list \<Rightarrow> params \<Rightarrow> handle \<Rightarrow> (handle \<times> string) list \<Rightarrow> kwargs \<Rightarrow>
     (booster \<times> evals_result) act" where
  "actor_train env rabit_args ps dtrain evals kw =
     bind_act (ensure_loaded env dtrain) (\<lambda>_.
     bind_act (lookup_data dtrain) (\<lambda>local_dtrain.
     bind_act (load_evals env evals []) (\<lambda>local_evals.
     bind_act checkpoint_exists (\<lambda>(p, ex) a.
       let kw1 = (if ex then kw\<lparr>kw_xgb_model := Some p\<rparr> else kw);
           callbacks = (case kw_callbacks kw1 of Some c \<Rightarrow> c | None \<Rightarrow> []) @ [SaveCheckpointCallback];
           kw2 = kw1\<lparr>kw_callbacks := Some callbacks\<rparr>
       in rabit_context env (str_nat (ident a)) rabit_args
            (xgb_train env ps local_dtrain local_evals kw2) a))))"

section \<open>The coordinator\<close>

text \<open>
  \<^verbatim>\<open>ray.get\<close> on the future of an actor call, and on a list of futures: the value, or
  the exception of the first future in the list that failed; a dead actor gives
  \<open>RayActorError\<close>.
\<close>

definition ray_get :: "'a outcome \<Rightarrow> exn + 'a" where
  "ray_get f = (case f of Returns v \<Rightarrow> Inr v | Raises e \<Rightarrow> Inl e | Dies \<Rightarrow> Inl RayActorError)"

fun ray_get_all :: "'a outcome list \<Rightarrow> exn + 'a list" where
  "ray_get_all [] = Inr []"
| "ray_get_all (f # fs) =
     (case ray_get f of
        Inl e \<Rightarrow> Inl e
      | Inr v \<Rightarrow> (case ray_get_all fs of Inl e \<Rightarrow> Inl e | Inr vs \<Rightarrow> Inr (v # vs)))"

text \<open>
  \<^verbatim>\<open>actor.method.remote(...)\<close>: the method runs on the actor if its process is alive;
  a call on a dead actor never runs.
\<close>

definition remote :: "'a act \<Rightarrow> 'a act" where
  "remote m a w =
     (if alive a then
        (case m a w of
           (Dies, a1, w1) \<Rightarrow> (Dies, a1\<lparr>alive := False\<rparr>, w1)
         | (r, a1, w1) \<Rightarrow> (r, a1, w1))
      else (Dies, a, w))"

text \<open>
  The resolution of the number of GPUs per worker at the start of \<^verbatim>\<open>_train\<close>;
  \<^verbatim>\<open>startswith\<close> exists on strings only.
\<close>

definition resolve_gpus :: "params \<Rightarrow> int \<Rightarrow> exn + int" where
  "resolve_gpus ps gpus_per_worker =
     (if gpus_per_worker = - 1 then
        (case map_of ps ''tree_method'' of
           None \<Rightarrow> Inr 0
         | Some (StrV s) \<Rightarrow> Inr (if startswith s ''gpu'' then 1 else 0)
         | Some (IntV _) \<Rightarrow> Inl AttributeError)
      else Inr gpus_per_worker)"

text \<open>\<^verbatim>\<open>_create_actor\<close> and the list comprehension over \<^verbatim>\<open>range(num_actors)\<close>.\<close>

definition priv_create_actor ::
  "attempt_env \<Rightarrow> nat \<Rightarrow> nat \<Rightarrow> int \<Rightarrow> string option \<Rightarrow> string \<Rightarrow> int \<Rightarrow> world \<Rightarrow> actor \<times> world" where
  "priv_create_actor env i n num_gpus_per_worker pfx path freq w =
     (\<lparr>rank = i, num_actors = n, checkpoint_prefix = pfx, checkpoint_path = path,
       checkpoint_frequency = freq, data = Map.empty, ident = ident_of env i, alive = True\<rparr>,
      emit (EvSpawn i n num_gpus_per_worker) w)"

fun create_actors ::
  "attempt_env \<Rightarrow> nat list \<Rightarrow> nat \<Rightarrow> int \<Rightarrow> string option \<Rightarrow> string \<Rightarrow> int \<Rightarrow> world \<Rightarrow>
     actor list \<times> world" where
  "create_actors env [] n g pfx path freq w = ([], w)"
| "create_actors env (i # is) n g pfx path freq w =
     (case priv_create_actor env i n g pfx path freq w of
        (a, w1) \<Rightarrow>
          (case create_actors env is n g pfx path freq w1 of
             (as, w2) \<Rightarrow> (a # as, w2)))"

text \<open>
  \<^verbatim>\<open>_trigger_data_load\<close>: one \<^verbatim>\<open>load_data\<close> call for the training handle and one for
  each evaluation handle, on the same actor, in this order.
\<close>

fun submit_loads ::
  "attempt_env \<Rightarrow> handle list \<Rightarrow> actor \<Rightarrow> world \<Rightarrow> unit outcome list \<times> actor \<times> world" where
  "submit_loads env [] a w = ([], a, w)"
| "submit_loads env (d # ds) a w =
     (case remote (load_data env d) a w of
        (r, a1, w1) \<Rightarrow>
          (case submit_loads env ds a1 w1 of
             (rs, a2, w2) \<Rightarrow> (r # rs, a2, w2)))"

definition priv_trigger_data_load ::
  "attempt_env \<Rightarrow> actor \<Rightarrow> handle \<Rightarrow> (handle \<times> string) list \<Rightarrow> world \<Rightarrow>
     unit outcome list \<times> actor \<times> world" where
  "priv_trigger_data_load env a dtrain evals w = submit_loads env (dtrain # map fst evals) a w"

fun load_phase ::
  "attempt_env \<Rightarrow> actor list \<Rightarrow> handle \<Rightarrow> (handle \<times> string) list \<Rightarrow> world \<Rightarrow>
     unit outcome list \<times> actor list \<times> world" where
  "load_phase env [] dtrain evals w = ([], [], w)"
| "load_phase env (a # as) dtrain evals w =
     (case priv_trigger_data_load env a dtrain evals w of
        (rs, a1, w1) \<Rightarrow>
          (case load_phase env as dtrain evals w1 of
             (rss, as1, w2) \<Rightarrow> (rs @ rss, a1 # as1, w2)))"

text \<open>
  \<^verbatim>\<open>_start_rabit_tracker\<close>: the environment is the worker count updated with the
  tracker's own entries; \<^verbatim>\<open>_train\<close> renders each item as \<^verbatim>\<open>key=value\<close>.
\<close>

definition dict_update :: "(string \<times> string) list \<Rightarrow> (string \<times> string) list \<Rightarrow> (string \<times> string) list" where
  "dict_update d kvs = foldl (\<lambda>acc kv. AList.update (fst kv) (snd kv) acc) d kvs"

definition priv_start_rabit_tracker ::
  "attempt_env \<Rightarrow> nat \<Rightarrow> world \<Rightarrow> (exn + (string \<times> string) list) \<times> world" where
  "priv_start_rabit_tracker env num_workers w =
     (case tracker env num_workers of
        Inl e \<Rightarrow> (Inl e, w)
      | Inr slave_envs \<Rightarrow>
          (Inr (dict_update [(''DMLC_NUM_WORKER'', str_nat num_workers)] slave_envs),
           emit (EvTrackerStart num_workers) w))"

definition render_rabit_args :: "(string \<times> string) list \<Rightarrow> string list" where
  "render_rabit_args items = map (\<lambda>item. fst item @ ''='' @ snd item) items"

text \<open>
  The training calls, one per actor. The actors run side by side; here one call
  is taken after the other, in rank order.
\<close>

fun train_phase ::
  "attempt_env \<Rightarrow> actor list \<Rightarrow> string list \<Rightarrow> params \<Rightarrow> handle \<Rightarrow> (handle \<times> string) list \<Rightarrow>
     kwargs \<Rightarrow> world \<Rightarrow> (booster \<times> evals_result) outcome list \<times> actor list \<times> world" where
  "train_phase env [] rabit_args ps dtrain evals kw w = ([], [], w)"
| "train_phase env (a # as) rabit_args ps dtrain evals kw w =
     (case remote (actor_train env rabit_args ps dtrain evals kw) a w of
        (r, a1, w1) \<Rightarrow>
          (case train_phase env as rabit_args ps dtrain evals kw w1 of
             (rs, as1, w2) \<Rightarrow> (r # rs, a1 # as1, w2)))"

text \<open>
  \<^verbatim>\<open>_cleanup\<close>: for each rank, remove the checkpoint file if it exists.
  \<^verbatim>\<open>os.path.exists(None)\<close> is a \<^verbatim>\<open>TypeError\<close>.
\<close>

fun cleanup_loop :: "string option \<Rightarrow> string \<Rightarrow> nat list \<Rightarrow> world \<Rightarrow> exn option \<times> world" where
  "cleanup_loop pfx path [] w = (None, w)"
| "cleanup_loop pfx path (i # is) w =
     (case priv_checkpoint_file path pfx i of
        None \<Rightarrow> (Some (TypeError ''stat: path should be string, bytes, os.PathLike or integer, not NoneType''), w)
      | Some cf \<Rightarrow>
          cleanup_loop pfx path is
            (if cf \<in> files w then emit (EvRemove cf) (w\<lparr>files := files w - {cf}\<rparr>) else w))"

definition priv_cleanup :: "string option \<Rightarrow> string \<Rightarrow> nat \<Rightarrow> world \<Rightarrow> exn option \<times> world" where
  "priv_cleanup pfx path n w = cleanup_loop pfx path [0 ..< n] w"

text \<open>
  \<^verbatim>\<open>_train\<close>: one training attempt. (The runtime is taken to be installed and
  initialised.) The result is what the function returns or raises, and the world
  it leaves.
\<close>

definition priv_train ::
  "attempt_env \<Rightarrow> params \<Rightarrow> handle \<Rightarrow> (handle \<times> string) list \<Rightarrow> nat \<Rightarrow> int \<Rightarrow>
     string option \<Rightarrow> string \<Rightarrow> int \<Rightarrow> kwargs \<Rightarrow> world \<Rightarrow>
     (exn + booster \<times> evals_result) \<times> world" where
  "priv_train env ps dtrain evals n gpus_per_worker pfx path freq kw w =
     (case resolve_gpus ps gpus_per_worker of
        Inl e \<Rightarrow> (Inl e, w)
      | Inr g \<Rightarrow>
     (case create_actors env [0 ..< n] n g pfx path freq w of (actors, w1) \<Rightarrow>
     (case load_phase env actors dtrain evals w1 of (wait_load, actors1, w2) \<Rightarrow>
     (case ray_get_all wait_load of
        Inl e \<Rightarrow> (Inl e, w2)
      | Inr _ \<Rightarrow>
     (case priv_start_rabit_tracker env n w2 of
        (Inl e, w3) \<Rightarrow> (Inl e, w3)
      | (Inr items, w3) \<Rightarrow>
     (case train_phase env actors1 (render_rabit_args items) ps dtrain evals kw w3 of
        (fut, actors2, w4) \<Rightarrow>
     (case ray_get_all fut of
        Inl e \<Rightarrow> (Inl e, w4)
      | Inr _ \<Rightarrow>
     (case fut of
        [] \<Rightarrow> (Inl IndexError, w4)
      | f0 # _ \<Rightarrow>
     (case ray_get f0 of
        Inl e \<Rightarrow> (Inl e, w4)
      | Inr res \<Rightarrow>
          (if \<not> falsy_str pfx then
             (case priv_cleanup pfx path n w4 of
                (Some e, w5) \<Rightarrow> (Inl e, w5)
              | (None, w5) \<Rightarrow> (Inr res, w5))
           else (Inr res, w4)))))))))))"

text \<open>
  The message of the \<^verbatim>\<open>RuntimeError\<close> of \<^verbatim>\<open>train\<close>: the template with its two
  \<^verbatim>\<open>{}\<close> fields filled by \<^verbatim>\<open>str.format\<close>.
\<close>

definition exhausted_message :: "string \<Rightarrow> string \<Rightarrow> string" where
  "exhausted_message field1 field2 =
     ''A Ray actor died during training and the maximum number '' @
     ''of retries is exhausted. Checkpoints have been stored '' @
     ''at `'' @ field1 @ ''` with prefix `'' @ field2 @ ''` - you can pass these parameters '' @
     ''as `checkpoint_path` and `checkpoint_prefix` to the '' @
     ''`train()` function to try to continue '' @
     ''the training.''"

text \<open>
  The call \<^verbatim>\<open>_train(..., checkpoint_prefix=..., checkpoint_path=...,
  checkpoint_frequency=..., **kwargs)\<close> in \<^verbatim>\<open>train\<close>: \<^verbatim>\<open>kwargs.get\<close> leaves the keys in
  \<^verbatim>\<open>kwargs\<close>, and Python rejects a call that gives a keyword twice.
\<close>

definition call_priv_train ::
  "attempt_env \<Rightarrow> params \<Rightarrow> handle \<Rightarrow> (handle \<times> string) list \<Rightarrow> nat \<Rightarrow> int \<Rightarrow>
     string option \<Rightarrow> string \<Rightarrow> int \<Rightarrow> kwargs \<Rightarrow> world \<Rightarrow>
     (exn + booster \<times> evals_result) \<times> world" where
  "call_priv_train env ps dtrain evals n g pfx path freq kw w =
     (if kw_checkpoint_prefix kw \<noteq> None \<or> kw_checkpoint_path kw \<noteq> None
         \<or> kw_checkpoint_frequency kw \<noteq> None
      then (Inl (TypeError ''_train() got multiple values for keyword argument''), w)
      else priv_train env ps dtrain evals n g pfx path freq kw w)"

text \<open>
  The retry loop of \<^verbatim>\<open>train\<close>, from the current value of \<^verbatim>\<open>tries\<close>. The limit is a
  number or \<^verbatim>\<open>float("inf")\<close>; \<open>attempt k\<close> is the call of \<^verbatim>\<open>_train\<close> made with
  \<^verbatim>\<open>tries = k\<close>. A loop that never ends has no result.
\<close>

partial_function (option) train_loop ::
  "(nat \<Rightarrow> world \<Rightarrow> (exn + booster \<times> evals_result) \<times> world) \<Rightarrow> enat \<Rightarrow> string \<Rightarrow> int \<Rightarrow>
     nat \<Rightarrow> world \<Rightarrow> ((exn + booster option \<times> evals_result) \<times> world) option" where
  "train_loop attempt limit path freq tries w =
     (if enat tries \<le> limit then
        (case attempt tries w of
           (Inr res, w1) \<Rightarrow> Some (Inr (Some (fst res), snd res), w1)
         | (Inl e, w1) \<Rightarrow>
             if e = RayActorError then
               (if enat (tries + 1) \<le> limit
                then train_loop attempt limit path freq (tries + 1) w1
                else Some (Inl (RuntimeError (exhausted_message path (str_int freq))), w1))
             else Some (Inl e, w1))
      else Some (Inr (None, []), w))"

declare train_loop.simps [code]

text \<open>
  The public \<^verbatim>\<open>train\<close>. \<open>now\<close> is the rendering of \<^verbatim>\<open>time.time()\<close> in the default
  prefix; \<open>envs k\<close> is what the collaborators do in the attempt made with
  \<^verbatim>\<open>tries = k\<close>.
\<close>

definition max_restarts :: "int \<Rightarrow> enat" where
  "max_restarts max_actor_restarts =
     (if max_actor_restarts \<ge> 0 then enat (nat max_actor_restarts) else \<infinity>)"

definition get_checkpoint_prefix :: "string \<Rightarrow> kwargs \<Rightarrow> string option" where
  "get_checkpoint_prefix now kw =
     (case kw_checkpoint_prefix kw of None \<Rightarrow> Some (''.xgb_ray_'' @ now) | Some v \<Rightarrow> v)"

definition get_checkpoint_path :: "kwargs \<Rightarrow> string" where
  "get_checkpoint_path kw = (case kw_checkpoint_path kw of None \<Rightarrow> ''/tmp'' | Some v \<Rightarrow> v)"

definition get_checkpoint_frequency :: "kwargs \<Rightarrow> int" where
  "get_checkpoint_frequency kw = (case kw_checkpoint_frequency kw of None \<Rightarrow> 5 | Some v \<Rightarrow> v)"

definition train_attempt ::
  "(nat \<Rightarrow> attempt_env) \<Rightarrow> string \<Rightarrow> params \<Rightarrow> handle \<Rightarrow> (handle \<times> string) list \<Rightarrow> nat \<Rightarrow> int \<Rightarrow>
     kwargs \<Rightarrow> nat \<Rightarrow> world \<Rightarrow> (exn + booster \<times> evals_result) \<times> world" where
  "train_attempt envs now ps dtrain evals n gpus_per_worker kw tries w =
     call_priv_train (envs tries) ps dtrain evals n gpus_per_worker
       (get_checkpoint_prefix now kw) (get_checkpoint_path kw) (get_checkpoint_frequency kw) kw w"

definition train ::
  "(nat \<Rightarrow> attempt_env) \<Rightarrow> string \<Rightarrow> params \<Rightarrow> handle \<Rightarrow> (handle \<times> string) list \<Rightarrow> nat \<Rightarrow> int \<Rightarrow>
     int \<Rightarrow> kwargs \<Rightarrow> world \<Rightarrow> ((exn + booster option \<times> evals_result) \<times> world) option" where
  "train envs now ps dtrain evals n gpus_per_worker max_actor_restarts kw w =
     train_loop (train_attempt envs now ps dtrain evals n gpus_per_worker kw)
       (max_restarts max_actor_restarts)
       (get_checkpoint_path kw) (get_checkpoint_frequency kw) 0 w"

section \<open>Observations on the trace\<close>

text \<open>The number of actors created so far.\<close>

fun is_spawn :: "event \<Rightarrow> bool" where
  "is_spawn (EvSpawn _ _ _) = True"
| "is_spawn _ = False"

definition spawn_count :: "world \<Rightarrow> nat" where
  "spawn_count w = length (filter is_spawn (trace w))"

text \<open>A step from \<open>w\<close> to \<open>w'\<close> that deletes no file and creates no actor.\<close>

definition quiet :: "world \<Rightarrow> world \<Rightarrow> bool" where
  "quiet w w' \<longleftrightarrow> files w \<subseteq> files w' \<and> spawn_count w' = spawn_count w"

definition act_quiet :: "'a act \<Rightarrow> bool" where
  "act_quiet m \<longleftrightarrow> (\<forall>a w. quiet w (snd (snd (m a w))))"

text \<open>The checkpoint files of the ranks \<open>0 .. n - 1\<close>.\<close>

definition rank_files :: "string \<Rightarrow> string option \<Rightarrow> nat \<Rightarrow> string set" where
  "rank_files path pfx n = {p. \<exists>i < n. priv_checkpoint_file path pfx i = Some p}"

text \<open>
  What holds of a result \<open>y\<close> of the retry loop started with \<open>tries\<close> in world \<open>w\<close>:
  an error leaves every file of \<open>w\<close> in place; a returned value is the value of a
  successful attempt, whose world satisfies \<open>Q\<close>; and the actors created are those of
  the attempts \<open>tries .. k\<close> for some \<open>k\<close> within the limit, at most \<open>n\<close> each.
\<close>

definition loop_post ::
  "(nat \<Rightarrow> world \<Rightarrow> (exn + booster \<times> evals_result) \<times> world) \<Rightarrow> enat \<Rightarrow> nat \<Rightarrow> (world \<Rightarrow> bool) \<Rightarrow>
     nat \<Rightarrow> world \<Rightarrow> (exn + booster option \<times> evals_result) \<times> world \<Rightarrow> bool" where
  "loop_post attempt limit n Q tries w y \<longleftrightarrow>
     (case fst y of
        Inl e \<Rightarrow> files w \<subseteq> files (snd y)
      | Inr r \<Rightarrow> Q (snd y) \<and>
          (\<exists>k w0 bst. tries \<le> k \<and> enat k \<le> limit \<and> fst r = Some bst \<and>
             attempt k w0 = (Inr (bst, snd r), snd y))) \<and>
     (\<exists>k. tries \<le> k \<and> enat k \<le> limit \<and>
        spawn_count (snd y) \<le> spawn_count w + (k + 1 - tries) * n)"

section \<open>Definitions used to state the properties\<close>

text \<open>Reading a decimal numeral back, the inverse of \<open>str_nat\<close>.\<close>

definition int_of_str :: "string \<Rightarrow> nat" where
  "int_of_str s = foldl (\<lambda>acc c. 10 * acc + digit_val c) 0 s"

text \<open>
  The checkpoint path as the specification writes it:
  \<^verbatim>\<open>{checkpointDir}/{checkpointPrefix}_{rank zero-padded to 5 digits}.xgb\<close>.
\<close>

definition spec_checkpoint_path :: "string \<Rightarrow> string \<Rightarrow> nat \<Rightarrow> string" where
  "spec_checkpoint_path checkpointDir checkpointPrefix r =
     checkpointDir @ ''/'' @ checkpointPrefix @ ''_'' @ zfill 5 (str_nat r) @ ''.xgb''"

text \<open>
  The job parameters indicate a GPU-accelerated training mode: \<^verbatim>\<open>tree_method\<close> is a
  string that begins with \<^verbatim>\<open>gpu\<close>. The second predicate says that \<^verbatim>\<open>tree_method\<close>, if
  given, is a string.
\<close>

definition gpu_mode :: "params \<Rightarrow> bool" where
  "gpu_mode ps =
     (case map_of ps ''tree_method'' of Some (StrV s) \<Rightarrow> prefix ''gpu'' s | _ \<Rightarrow> False)"

definition tree_method_is_str :: "params \<Rightarrow> bool" where
  "tree_method_is_str ps =
     (case map_of ps ''tree_method'' of Some (IntV _) \<Rightarrow> False | _ \<Rightarrow> True)"

definition gpu_params :: params where
  "gpu_params = [(''max_depth'', IntV 3), (''tree_method'', StrV ''gpu_hist'')]"

text \<open>An actor of rank 2 among 4 with the checkpoint prefix \<^verbatim>\<open>ckpt\<close>, and an empty world.\<close>

definition demo_actor :: actor where
  "demo_actor =
     \<lparr>rank = 2, num_actors = 4, checkpoint_prefix = Some ''ckpt'', checkpoint_path = ''/tmp'',
      checkpoint_frequency = 5, data = Map.empty, ident = 9, alive = True\<rparr>"

definition empty_world :: world where
  "empty_world = \<lparr>files = {}, trace = []\<rparr>"

text \<open>
  Collaborators for concrete runs: every actor loads and trains (six iterations);
  the actor of rank 1 dies after three iterations; the engine rejects the parameters.
  A call of \<^verbatim>\<open>train\<close> without keyword arguments.
\<close>

definition ok_env :: attempt_env where
  "ok_env =
     \<lparr>ident_of = (\<lambda>r. 7 + r),
      loader = (\<lambda>d r n. Returns ([int d, int r], [int n])),
      tracker = (\<lambda>n. Inr [(''DMLC_TRACKER_URI'', ''10.0.0.1''), (''DMLC_TRACKER_PORT'', ''9091'')]),
      rabit_init = (\<lambda>r. Returns ()),
      engine = (\<lambda>r. (6, Returns (1, [(''train-rmse'', [3, 2, 1])])))\<rparr>"

definition crash_env :: attempt_env where
  "crash_env = ok_env\<lparr>engine := (\<lambda>r. if r = 1 then (3, Dies) else engine ok_env r)\<rparr>"

definition invalid_env :: attempt_env where
  "invalid_env = ok_env\<lparr>engine := (\<lambda>r. (0, Raises (ExternalError ''Invalid Parameter'')))\<rparr>"

definition no_kwargs :: kwargs where
  "no_kwargs =
     \<lparr>kw_checkpoint_prefix = None, kw_checkpoint_path = None, kw_checkpoint_frequency = None,
      kw_callbacks = None, kw_xgb_model = None\<rparr>"

text \<open>None of the checkpoint files of the ranks \<open>0 .. n - 1\<close> of this job exists.\<close>

definition checkpoints_gone :: "string \<Rightarrow> kwargs \<Rightarrow> nat \<Rightarrow> world \<Rightarrow> bool" where
  "checkpoints_gone now kw n w \<longleftrightarrow>
     files w \<inter> rank_files (get_checkpoint_path kw) (get_checkpoint_prefix now kw) n = {}"

definition load_error_env :: attempt_env where
  "load_error_env = ok_env\<lparr>loader := (\<lambda>d r n. Raises (ExternalError ''shard unavailable''))\<rparr>"

text \<open>The actor of rank 1 dies in the first attempt; the later attempts go through.\<close>

definition retry_envs :: "nat \<Rightarrow> attempt_env" where
  "retry_envs k = (if k = 0 then crash_env else ok_env)"

text \<open>A world in which the checkpoint of rank 0 of the job started at \<^verbatim>\<open>1604.5\<close> exists.\<close>

definition resumed_world :: world where
  "resumed_world = \<lparr>files = {''/tmp/.xgb_ray_1604.5_00000.xgb''}, trace = []\<rparr>"

text \<open>The number of calls of the dataset handle's \<^verbatim>\<open>load_data\<close> for the handle \<open>d\<close>.\<close>

fun is_load_of :: "handle \<Rightarrow> event \<Rightarrow> bool" where
  "is_load_of d (EvDataLoad d' _ _) = (d' = d)"
| "is_load_of d _ = False"

definition load_count :: "handle \<Rightarrow> world \<Rightarrow> nat" where
  "load_count d w = length (filter (is_load_of d) (trace w))"

text \<open>Two calls of the actor's \<^verbatim>\<open>load_data\<close> for the same handle, one after the other.\<close>

definition load_twice :: "attempt_env \<Rightarrow> handle \<Rightarrow> unit act" where
  "load_twice env d a w = (case load_data env d a w of (r, a1, w1) \<Rightarrow> load_data env d a1 w1)"

text \<open>Kinds of events.\<close>

fun is_load :: "event \<Rightarrow> bool" where
  "is_load (EvDataLoad _ _ _) = True"
| "is_load _ = False"

fun is_save :: "event \<Rightarrow> bool" where
  "is_save (EvSaveModel _ _) = True"
| "is_save _ = False"

fun is_xgb_train :: "event \<Rightarrow> bool" where
  "is_xgb_train (EvXgbTrain _ _ _ _ _) = True"
| "is_xgb_train _ = False"

text \<open>A method that only adds events of one kind to the trace and keeps the actor's identity.\<close>

definition act_emits :: "(event \<Rightarrow> bool) \<Rightarrow> 'a act \<Rightarrow> bool" where
  "act_emits P m \<longleftrightarrow>
     (\<forall>a w. ident (fst (snd (m a w))) = ident a \<and>
        (\<exists>evs. trace (snd (snd (m a w))) = trace w @ evs \<and> list_all P evs))"

text \<open>
  The events of one call of the actor's \<^verbatim>\<open>train\<close> with outcome \<open>r\<close>: loads of
  shards; then nothing more (the call failed before the \<^verbatim>\<open>with\<close> statement), or the
  join alone (the join failed), or the join with the task identifier of this actor
  as last argument, the call of the engine, the checkpoints saved, and the
  finalisation unless the process died.
\<close>

definition rendezvous_ok :: "string list \<Rightarrow> actor \<Rightarrow> 'a outcome \<Rightarrow> event list \<Rightarrow> bool" where
  "rendezvous_ok rabit_args a r evs \<longleftrightarrow>
     (\<exists>loads blk. evs = loads @ blk \<and> list_all is_load loads \<and>
        (let join = EvRabitInit (rabit_args @ [''DMLC_TASK_ID=[xgboost.ray]:'' @ str_nat (ident a)]) in
           (blk = [] \<and> (\<forall>v. r \<noteq> Returns v)) \<or>
           (blk = [join] \<and> (\<forall>v. r \<noteq> Returns v)) \<or>
           (\<exists>tr saves. is_xgb_train tr \<and> list_all is_save saves \<and>
              blk = join # tr # saves @ (if r = Dies then [] else [EvRabitFinalize]))))"

text \<open>
  The fields of an actor that no method changes, and a method that keeps them. The
  events that a step from \<open>w\<close> to \<open>w'\<close> added. An engine call whose last callback is
  the save hook. An actor configured with the checkpoint frequency 0.
\<close>

definition same_config :: "actor \<Rightarrow> actor \<Rightarrow> bool" where
  "same_config a a' \<longleftrightarrow>
     rank a' = rank a \<and> checkpoint_prefix a' = checkpoint_prefix a \<and>
     checkpoint_path a' = checkpoint_path a \<and>
     checkpoint_frequency a' = checkpoint_frequency a \<and> ident a' = ident a"

definition act_keeps :: "'a act \<Rightarrow> bool" where
  "act_keeps m \<longleftrightarrow> (\<forall>a w. same_config a (fst (snd (m a w))))"

definition new_events :: "world \<Rightarrow> world \<Rightarrow> event list" where
  "new_events w w' = drop (length (trace w)) (trace w')"

fun installs_hook :: "event \<Rightarrow> bool" where
  "installs_hook (EvXgbTrain _ _ _ _ cbs) = (cbs \<noteq> [] \<and> last cbs = SaveCheckpointCallback)"
| "installs_hook _ = False"

definition zero_frequency_actor :: actor where
  "zero_frequency_actor = demo_actor\<lparr>checkpoint_frequency := 0\<rparr>"

section \<open>Steps that delete no file and create no actor\<close>

lemma quiet_refl: "quiet w w"
  by (simp add: quiet_def)

lemma quiet_trans: "quiet w w1 \<Longrightarrow> quiet w1 w2 \<Longrightarrow> quiet w w2"
  by (auto simp: quiet_def)

lemma quiet_emit: "\<not> is_spawn e \<Longrightarrow> quiet w (emit e w)"
  by (simp add: quiet_def emit_def spawn_count_def)

lemma act_quietD: "act_quiet m \<Longrightarrow> m a w = (r, a1, w1) \<Longrightarrow> quiet w w1"
proof -
  assume q: "act_quiet m" and e: "m a w = (r, a1, w1)"
  from q have "quiet w (snd (snd (m a w)))" by (simp add: act_quiet_def)
  with e show ?thesis by simp
qed

lemma act_quiet_bind:
  assumes "act_quiet m" and "\<And>v. act_quiet (f v)"
  shows "act_quiet (bind_act m f)"
  unfolding act_quiet_def
proof (intro allI)
  fix a w
  obtain r a1 w1 where m: "m a w = (r, a1, w1)" by (cases "m a w") auto
  have q1: "quiet w w1" using assms(1) m by (rule act_quietD)
  show "quiet w (snd (snd (bind_act m f a w)))"
  proof (cases r)
    case (Returns v)
    obtain r2 a2 w2 where f: "f v a1 w1 = (r2, a2, w2)" by (cases "f v a1 w1") auto
    have "quiet w1 w2" using assms(2) f by (rule act_quietD)
    with q1 have "quiet w w2" by (rule quiet_trans)
    with m Returns f show ?thesis by (simp add: bind_act_def)
  next
    case (Raises e)
    with m q1 show ?thesis by (simp add: bind_act_def)
  next
    case Dies
    with m q1 show ?thesis by (simp add: bind_act_def)
  qed
qed

lemma act_quiet_load_data: "act_quiet (load_data env d)"
  by (auto simp: act_quiet_def load_data_def Let_def quiet_emit split: outcome.splits prod.splits)

lemma act_quiet_ensure_loaded: "act_quiet (ensure_loaded env d)"
  using act_quiet_load_data[of env d]
  by (auto simp: act_quiet_def ensure_loaded_def quiet_refl)

lemma act_quiet_lookup_data: "act_quiet (lookup_data d)"
  by (auto simp: act_quiet_def lookup_data_def quiet_refl split: option.splits)

lemma act_quiet_load_evals: "act_quiet (load_evals env evals acc)"
proof (induction evals arbitrary: acc)
  case Nil
  show ?case by (simp add: act_quiet_def quiet_refl)
next
  case (Cons ev evals)
  obtain deval name where ev: "ev = (deval, name)" by (cases ev)
  have "act_quiet (bind_act (ensure_loaded env deval) (\<lambda>_.
     bind_act (lookup_data deval) (\<lambda>m.
       load_evals env evals (acc @ [(m, name)]))))"
    by (intro act_quiet_bind act_quiet_ensure_loaded act_quiet_lookup_data Cons.IH)
  then show ?case by (simp add: ev act_quiet_def)
qed

lemma quiet_save_model: "quiet w (snd (save_model f i w))"
  by (auto simp: save_model_def quiet_def emit_def spawn_count_def split: option.splits)

lemma quiet_save_checkpoint_callback: "quiet w (snd (save_checkpoint_callback a i w))"
  by (simp add: save_checkpoint_callback_def quiet_refl quiet_save_model)

lemma act_quiet_run_callbacks: "act_quiet (run_callbacks cbs i)"
  unfolding act_quiet_def
proof (intro allI)
  fix a w
  show "quiet w (snd (snd (run_callbacks cbs i a w)))"
  proof (induction cbs arbitrary: w)
    case Nil
    show ?case by (simp add: quiet_refl)
  next
    case (Cons cb cbs)
    show ?case
    proof (cases cb)
      case (UserCallback k)
      then show ?thesis using Cons.IH by simp
    next
      case SaveCheckpointCallback
      obtain r w1 where s: "save_checkpoint_callback a i w = (r, w1)"
        by (cases "save_checkpoint_callback a i w")
      have q: "quiet w w1" using quiet_save_checkpoint_callback[of w a i] s by simp
      show ?thesis
      proof (cases r)
        case (Returns u)
        with SaveCheckpointCallback s q Cons.IH[of w1] show ?thesis
          by (auto intro: quiet_trans)
      qed (use SaveCheckpointCallback s q in auto)
    qed
  qed
qed

lemma act_quiet_run_iterations: "act_quiet (run_iterations cbs is)"
proof (induction "is")
  case Nil
  show ?case by (simp add: act_quiet_def quiet_refl)
next
  case (Cons i "is")
  have "act_quiet (bind_act (run_callbacks cbs (int i)) (\<lambda>_. run_iterations cbs is))"
    by (intro act_quiet_bind act_quiet_run_callbacks Cons.IH)
  then show ?case by (simp add: act_quiet_def)
qed

lemma act_quiet_xgb_train: "act_quiet (xgb_train env ps dm evs kw)"
  unfolding act_quiet_def
proof (intro allI)
  fix a :: actor and w
  let ?cbs = "case kw_callbacks kw of None \<Rightarrow> [] | Some c \<Rightarrow> c"
  let ?w0 = "emit (EvXgbTrain ps dm evs (kw_xgb_model kw) ?cbs) w"
  have q0: "quiet w ?w0" by (simp add: quiet_emit)
  have "act_quiet (bind_act (run_iterations ?cbs [0 ..< fst (engine env (rank a))])
           (\<lambda>_ a1 w1. (snd (engine env (rank a)), a1, w1)))"
    by (intro act_quiet_bind act_quiet_run_iterations) (simp add: act_quiet_def quiet_refl)
  then have "quiet ?w0 (snd (snd (xgb_train env ps dm evs kw a w)))"
    by (simp add: act_quiet_def xgb_train_def Let_def)
  with q0 show "quiet w (snd (snd (xgb_train env ps dm evs kw a w)))"
    by (rule quiet_trans)
qed

lemma act_quiet_rabit_context:
  assumes "act_quiet body"
  shows "act_quiet (rabit_context env aid args body)"
  unfolding act_quiet_def
proof (intro allI)
  fix a :: actor and w
  let ?w0 = "emit (EvRabitInit (args @ [rabit_task_arg aid])) w"
  have q0: "quiet w ?w0" by (simp add: quiet_emit)
  obtain r a1 w1 where b: "body a ?w0 = (r, a1, w1)" by (cases "body a ?w0") auto
  have q1: "quiet ?w0 w1" using assms b by (rule act_quietD)
  have q2: "quiet w1 (emit EvRabitFinalize w1)" by (simp add: quiet_emit)
  from q0 q1 have q01: "quiet w w1" by (rule quiet_trans)
  from q01 q2 have q02: "quiet w (emit EvRabitFinalize w1)" by (rule quiet_trans)
  show "quiet w (snd (snd (rabit_context env aid args body a w)))"
    using b q0 q01 q02
    by (cases "rabit_init env (rank a)"; cases r) (simp_all add: rabit_context_def Let_def)
qed

lemma act_quiet_checkpoint_exists: "act_quiet checkpoint_exists"
  by (auto simp: act_quiet_def checkpoint_exists_def quiet_refl split: option.splits)

lemma quiet_train_block:
  "quiet w (snd (snd (rabit_context env aid rargs (xgb_train env ps dm evs kw) a w)))"
  using act_quiet_rabit_context[OF act_quiet_xgb_train, of env aid rargs env ps dm evs kw]
  by (simp add: act_quiet_def)

lemma act_quiet_actor_train: "act_quiet (actor_train env rargs ps dtrain evals kw)"
  unfolding actor_train_def
  by (intro act_quiet_bind act_quiet_ensure_loaded act_quiet_lookup_data
      act_quiet_load_evals act_quiet_checkpoint_exists)
    (simp add: act_quiet_def split_def Let_def quiet_train_block)


lemma act_quiet_remote: "act_quiet m \<Longrightarrow> act_quiet (remote m)"
  unfolding act_quiet_def remote_def
  by (auto split: prod.splits outcome.splits simp: quiet_refl)
     (metis snd_conv)+


lemma remote_quiet:
  assumes "act_quiet m" and "remote m a w = (r, a1, w1)"
  shows "quiet w w1"
  using act_quietD[OF act_quiet_remote[OF assms(1)] assms(2)] .

lemma submit_loads_quiet: "submit_loads env ds a w = (rs, a1, w1) \<Longrightarrow> quiet w w1"
proof (induction ds arbitrary: a w rs a1 w1)
  case Nil
  then show ?case by (simp add: quiet_refl)
next
  case (Cons d ds)
  obtain r a2 w2 where e1: "remote (load_data env d) a w = (r, a2, w2)"
    by (cases "remote (load_data env d) a w") auto
  obtain rs' a3 w3 where e2: "submit_loads env ds a2 w2 = (rs', a3, w3)"
    by (cases "submit_loads env ds a2 w2") auto
  from Cons.prems e1 e2 have "w1 = w3" by simp
  moreover have "quiet w w2" using act_quiet_load_data e1 by (rule remote_quiet)
  moreover have "quiet w2 w3" using e2 by (rule Cons.IH)
  ultimately show ?case by (auto intro: quiet_trans)
qed

lemma load_phase_quiet: "load_phase env as dtrain evals w = (rs, as1, w1) \<Longrightarrow> quiet w w1"
proof (induction as arbitrary: w rs as1 w1)
  case Nil
  then show ?case by (simp add: quiet_refl)
next
  case (Cons a as)
  obtain r a2 w2 where e1: "priv_trigger_data_load env a dtrain evals w = (r, a2, w2)"
    by (cases "priv_trigger_data_load env a dtrain evals w") auto
  obtain rs' as3 w3 where e2: "load_phase env as dtrain evals w2 = (rs', as3, w3)"
    by (cases "load_phase env as dtrain evals w2") auto
  from Cons.prems e1 e2 have "w1 = w3" by simp
  moreover have "quiet w w2"
    using e1 unfolding priv_trigger_data_load_def by (rule submit_loads_quiet)
  moreover have "quiet w2 w3" using e2 by (rule Cons.IH)
  ultimately show ?case by (auto intro: quiet_trans)
qed

lemma train_phase_quiet:
  "train_phase env as rargs ps dtrain evals kw w = (rs, as1, w1) \<Longrightarrow> quiet w w1"
proof (induction as arbitrary: w rs as1 w1)
  case Nil
  then show ?case by (simp add: quiet_refl)
next
  case (Cons a as)
  obtain r a2 w2 where e1: "remote (actor_train env rargs ps dtrain evals kw) a w = (r, a2, w2)"
    by (cases "remote (actor_train env rargs ps dtrain evals kw) a w") auto
  obtain rs' as3 w3 where e2: "train_phase env as rargs ps dtrain evals kw w2 = (rs', as3, w3)"
    by (cases "train_phase env as rargs ps dtrain evals kw w2") auto
  from Cons.prems e1 e2 have "w1 = w3" by simp
  moreover have "quiet w w2" using act_quiet_actor_train e1 by (rule remote_quiet)
  moreover have "quiet w2 w3" using e2 by (rule Cons.IH)
  ultimately show ?case by (auto intro: quiet_trans)
qed

lemma tracker_quiet: "priv_start_rabit_tracker env n w = (r, w1) \<Longrightarrow> quiet w w1"
  by (auto simp: priv_start_rabit_tracker_def quiet_refl quiet_emit split: sum.splits)

lemma create_actors_world:
  "create_actors env is n g pfx path freq w = (as, w1) \<Longrightarrow>
     files w1 = files w \<and> spawn_count w1 = spawn_count w + length is"
proof (induction "is" arbitrary: w as w1)
  case Nil
  then show ?case by simp
next
  case (Cons i "is")
  obtain a w2 where e1: "priv_create_actor env i n g pfx path freq w = (a, w2)"
    by (cases "priv_create_actor env i n g pfx path freq w") auto
  obtain as' w3 where e2: "create_actors env is n g pfx path freq w2 = (as', w3)"
    by (cases "create_actors env is n g pfx path freq w2") auto
  from Cons.prems e1 e2 have "w1 = w3" by simp
  moreover from e1 have "files w2 = files w \<and> spawn_count w2 = spawn_count w + 1"
    by (auto simp: priv_create_actor_def emit_def spawn_count_def)
  moreover note Cons.IH[OF e2]
  ultimately show ?case by simp
qed

lemma cleanup_loop_world:
  "cleanup_loop pfx path is w = (r, w1) \<Longrightarrow>
     spawn_count w1 = spawn_count w \<and>
     (\<not> falsy_str pfx \<longrightarrow> r = None \<and>
        files w1 = files w - {p. \<exists>i \<in> set is. priv_checkpoint_file path pfx i = Some p})"
proof (induction "is" arbitrary: w r w1)
  case Nil
  then show ?case by simp
next
  case (Cons i "is")
  show ?case
  proof (cases "priv_checkpoint_file path pfx i")
    case None
    with Cons.prems show ?thesis by (auto simp: priv_checkpoint_file_def split: if_splits)
  next
    case (Some cf)
    let ?w2 = "if cf \<in> files w then emit (EvRemove cf) (w\<lparr>files := files w - {cf}\<rparr>) else w"
    from Cons.prems Some have "cleanup_loop pfx path is ?w2 = (r, w1)" by simp
    note ih = Cons.IH[OF this]
    have "spawn_count ?w2 = spawn_count w" "files ?w2 = files w - {cf}"
      by (auto simp: emit_def spawn_count_def)
    with ih Some show ?thesis by auto
  qed
qed

section \<open>One attempt and the retry loop\<close>

lemma priv_cleanup_world:
  assumes "priv_cleanup pfx path n w = (r, w1)"
  shows "spawn_count w1 = spawn_count w"
    and "\<not> falsy_str pfx \<Longrightarrow> r = None"
    and "\<not> falsy_str pfx \<Longrightarrow> files w1 = files w - rank_files path pfx n"
  using cleanup_loop_world[OF assms[unfolded priv_cleanup_def]]
  by (auto simp: rank_files_def)

lemma priv_train_world:
  assumes pt: "priv_train env ps dtrain evals n g pfx path freq kw w = (res, w')"
  shows "(case resolve_gpus ps g of
            Inl e \<Rightarrow> res = Inl e \<and> w' = w
          | Inr _ \<Rightarrow>
              spawn_count w' = spawn_count w + n \<and>
              (case res of
                 Inl e \<Rightarrow> files w \<subseteq> files w'
               | Inr r \<Rightarrow> \<not> falsy_str pfx \<longrightarrow> files w' \<inter> rank_files path pfx n = {}))"
proof (cases "resolve_gpus ps g")
  case (Inl e)
  with pt show ?thesis by (simp add: priv_train_def)
next
  case (Inr gv)
  obtain actors w1 where ca: "create_actors env [0 ..< n] n gv pfx path freq w = (actors, w1)"
    by (cases "create_actors env [0 ..< n] n gv pfx path freq w") auto
  obtain wait_load actors1 w2 where lp: "load_phase env actors dtrain evals w1 = (wait_load, actors1, w2)"
    by (cases "load_phase env actors dtrain evals w1") auto
  obtain tr w3 where st: "priv_start_rabit_tracker env n w2 = (tr, w3)"
    by (cases "priv_start_rabit_tracker env n w2") auto
  from create_actors_world[OF ca]
  have w1: "files w1 = files w" "spawn_count w1 = spawn_count w + n" by simp_all
  have q12: "quiet w1 w2" using lp by (rule load_phase_quiet)
  have q23: "quiet w2 w3" using st by (rule tracker_quiet)
  have w2: "files w \<subseteq> files w2" "spawn_count w2 = spawn_count w + n"
    using w1 q12 by (auto simp: quiet_def)
  have w3: "files w \<subseteq> files w3" "spawn_count w3 = spawn_count w + n"
    using w2 q23 by (auto simp: quiet_def)
  show ?thesis
  proof (cases "ray_get_all wait_load")
    case (Inl e)
    with pt Inr ca lp w2 show ?thesis by (auto simp: priv_train_def)
  next
    case loaded: (Inr vs)
    show ?thesis
    proof (cases tr)
      case (Inl e)
      with pt Inr ca lp loaded st w3 show ?thesis by (auto simp: priv_train_def)
    next
      case items: (Inr items)
      obtain fut actors2 w4 where tp:
        "train_phase env actors1 (render_rabit_args items) ps dtrain evals kw w3 = (fut, actors2, w4)"
        by (cases "train_phase env actors1 (render_rabit_args items) ps dtrain evals kw w3") auto
      have q34: "quiet w3 w4" using tp by (rule train_phase_quiet)
      have w4: "files w \<subseteq> files w4" "spawn_count w4 = spawn_count w + n"
        using w3 q34 by (auto simp: quiet_def)
      obtain cr w5 where cl: "priv_cleanup pfx path n w4 = (cr, w5)"
        by (cases "priv_cleanup pfx path n w4") auto
      note c = priv_cleanup_world[OF cl]
      have unfolded: "(res, w') =
        (case ray_get_all fut of
          Inl e \<Rightarrow> (Inl e, w4)
        | Inr _ \<Rightarrow>
          (case fut of
             [] \<Rightarrow> (Inl IndexError, w4)
           | f0 # _ \<Rightarrow>
          (case ray_get f0 of
             Inl e \<Rightarrow> (Inl e, w4)
           | Inr res \<Rightarrow>
              (if \<not> falsy_str pfx then
                 (case priv_cleanup pfx path n w4 of
                    (Some e, w5) \<Rightarrow> (Inl e, w5)
                  | (None, w5) \<Rightarrow> (Inr res, w5))
               else (Inr res, w4)))))"
        using pt Inr ca lp loaded st items tp by (simp add: priv_train_def)
      show ?thesis
        using unfolded Inr w4 c cl
        by (auto split: sum.splits list.splits if_splits option.splits)
    qed
  qed
qed


lemma train_loop_post:
  assumes att: "\<And>k w r w1. attempt k w = (r, w1) \<Longrightarrow>
      spawn_count w1 \<le> spawn_count w + n \<and>
      ((\<exists>e. r = Inl e) \<longrightarrow> files w \<subseteq> files w1) \<and>
      ((\<exists>v. r = Inr v) \<longrightarrow> Q w1)"
    and run: "train_loop attempt limit path freq tries w = Some y"
    and le: "enat tries \<le> limit"
  shows "loop_post attempt limit n Q tries w y"
proof -
  have "attempt = attempt \<longrightarrow> enat tries \<le> limit \<longrightarrow> loop_post attempt limit n Q tries w y"
  proof (rule train_loop.raw_induct[where P = "\<lambda>a l p f t w y.
      a = attempt \<longrightarrow> enat t \<le> l \<longrightarrow> loop_post attempt l n Q t w y", OF _ run], goal_cases)
    case (1 loop attempt' limit path freq tries w y)
    show ?case
    proof (intro impI)
      assume eq: "attempt' = attempt" and le: "enat tries \<le> limit"
      obtain r w1 where a: "attempt tries w = (r, w1)" by (cases "attempt tries w") auto
      note aw = att[OF a]
      show "loop_post attempt limit n Q tries w y"
      proof (cases r)
        case (Inr v)
        with 1(2) eq le a have y: "y = (Inr (Some (fst v), snd v), w1)" by simp
        have "attempt tries w0 = (Inr (fst v, snd v), w1)" if "w0 = w" for w0
          using a Inr that by simp
        then show ?thesis
          using y aw Inr le unfolding loop_post_def
          by (auto intro!: exI[of _ tries])
      next
        case (Inl e)
        show ?thesis
        proof (cases "e = RayActorError \<and> enat (tries + 1) \<le> limit")
          case False
          with 1(2) eq le a Inl have "snd y = w1 \<and> (\<exists>e'. fst y = Inl e')"
            by (auto split: if_splits)
          then show ?thesis
            using aw Inl le unfolding loop_post_def
            by (auto intro!: exI[of _ tries])
        next
          case True
          with 1(2) eq le a Inl have "loop attempt limit path freq (tries + 1) w1 = Some y"
            by simp
          from 1(1)[OF this] eq True
          have ih: "loop_post attempt limit n Q (tries + 1) w1 y" by simp
          from aw Inl have f: "files w \<subseteq> files w1" and s: "spawn_count w1 \<le> spawn_count w + n"
            by auto
          from ih obtain k where k: "tries + 1 \<le> k" "enat k \<le> limit"
            "spawn_count (snd y) \<le> spawn_count w1 + (k + 1 - (tries + 1)) * n"
            unfolding loop_post_def by auto
          have "spawn_count (snd y) \<le> spawn_count w + (k + 1 - tries) * n"
          proof -
            from k(1) have "k + 1 - tries = Suc (k + 1 - (tries + 1))" by simp
            then have "(k + 1 - tries) * n = n + (k + 1 - (tries + 1)) * n" by simp
            with k(3) s show ?thesis by simp
          qed
          with k have sp: "\<exists>k. tries \<le> k \<and> enat k \<le> limit \<and>
              spawn_count (snd y) \<le> spawn_count w + (k + 1 - tries) * n"
            by (intro exI[of _ k]) simp
          show ?thesis
          proof (cases "fst y")
            case (Inl e')
            with ih f sp show ?thesis unfolding loop_post_def by auto
          next
            case (Inr rr)
            with ih obtain k' w0 bst where "tries + 1 \<le> k'" "enat k' \<le> limit" "fst rr = Some bst"
              "attempt k' w0 = (Inr (bst, snd rr), snd y)" and "Q (snd y)"
              unfolding loop_post_def by auto
            then have "Q (snd y) \<and> (\<exists>k w0 bst. tries \<le> k \<and> enat k \<le> limit \<and> fst rr = Some bst \<and>
              attempt k w0 = (Inr (bst, snd rr), snd y))"
              by (intro conjI exI[of _ k'] exI[of _ w0] exI[of _ bst]) simp_all
            with Inr sp show ?thesis unfolding loop_post_def by simp
          qed
        qed
      qed
    qed
  qed
  with le show ?thesis by blast
qed

lemma train_loop_terminates:
  "enat tries \<le> enat R \<Longrightarrow> \<exists>y. train_loop attempt (enat R) path freq tries w = Some y"
proof (induction "R - tries" arbitrary: tries w)
  case 0
  then have "tries = R" by simp
  then show ?case
    by (subst train_loop.simps) (auto split: prod.splits sum.splits)
next
  case (Suc d)
  then have lt: "tries < R" by simp
  obtain r w1 where a: "attempt tries w = (r, w1)" by (cases "attempt tries w") auto
  from Suc(2) lt have "d = R - (tries + 1)" by simp
  moreover from lt have "enat (tries + 1) \<le> enat R" by simp
  ultimately obtain y where "train_loop attempt (enat R) path freq (tries + 1) w1 = Some y"
    using Suc(1)[of "tries + 1" w1] by blast
  with a lt show ?case
    by (subst train_loop.simps) (auto split: prod.splits sum.splits)
qed

section \<open>Decimal rendering and path joining\<close>

lemma digit_val_digit_char: "d < 10 \<Longrightarrow> digit_val (digit_char d) = d"
  by (simp add: digit_val_def digit_char_def)

lemma int_of_str_snoc: "int_of_str (s @ [c]) = 10 * int_of_str s + digit_val c"
  by (simp add: int_of_str_def)

lemma int_of_str_str_nat: "int_of_str (str_nat n) = n"
proof (induction n rule: str_nat.induct)
  case (1 n)
  show ?case
  proof (cases "n < 10")
    case True
    then show ?thesis
      by (subst str_nat.simps) (simp add: int_of_str_def digit_val_digit_char)
  next
    case False
    with 1 have "int_of_str (str_nat (n div 10)) = n div 10" by simp
    with False show ?thesis
      by (subst str_nat.simps) (simp add: int_of_str_snoc digit_val_digit_char)
  qed
qed

lemma int_of_str_zeros: "int_of_str (replicate k (CHR ''0'') @ s) = int_of_str s"
  by (induction k) (simp_all add: int_of_str_def digit_val_def)

lemma format_05d_inj: "format_05d m = format_05d n \<Longrightarrow> m = n"
proof -
  assume "format_05d m = format_05d n"
  then have "int_of_str (format_05d m) = int_of_str (format_05d n)" by simp
  then show "m = n"
    by (simp add: format_05d_def zfill_def int_of_str_zeros int_of_str_str_nat)
qed

lemma os_path_join_name:
  "p \<noteq> [] \<Longrightarrow> \<exists>front. \<forall>rest. os_path_join path (p @ rest) = front @ rest"
proof -
  assume ne: "p \<noteq> []"
  then have sw: "startswith (p @ rest) ''/'' = startswith p ''/''" for rest
    by (cases p) (simp_all add: startswith_def)
  show ?thesis
  proof (cases "startswith p ''/''")
    case True
    with sw show ?thesis by (intro exI[of _ p]) (simp add: os_path_join_def)
  next
    case False
    show ?thesis
    proof (cases "path = [] \<or> endswith path ''/''")
      case True
      with False sw show ?thesis by (intro exI[of _ "path @ p"]) (simp add: os_path_join_def)
    next
      case False2: False
      with False sw show ?thesis
        by (intro exI[of _ "path @ ''/'' @ p"]) (simp add: os_path_join_def)
    qed
  qed
qed

lemma priv_checkpoint_file_inj:
  assumes "\<not> falsy_str pfx"
    and "priv_checkpoint_file path pfx r1 = priv_checkpoint_file path pfx r2"
  shows "r1 = r2"
proof -
  from assms(1) obtain p where p: "pfx = Some p" "p \<noteq> []"
    by (auto simp: falsy_str_def split: option.splits)
  from os_path_join_name[OF p(2), of path] obtain front where
    fr: "\<And>rest. os_path_join path (p @ rest) = front @ rest" by blast
  have "priv_checkpoint_file path pfx r = Some (front @ ''_'' @ format_05d r @ ''.xgb'')" for r
    using p fr[of "''_'' @ format_05d r @ ''.xgb''"]
    by (simp add: priv_checkpoint_file_def falsy_str_def)
  with assms(2) have "format_05d r1 = format_05d r2" by simp
  then show ?thesis by (rule format_05d_inj)
qed

lemma startswith_prefix: "startswith s p \<longleftrightarrow> prefix p s"
proof
  assume "startswith s p"
  then have "take (length p) s = p" by (simp add: startswith_def)
  then show "prefix p s" using take_is_prefix[of "length p" s] by simp
next
  assume "prefix p s"
  then obtain zs where "s = p @ zs" by (auto simp: prefix_def)
  then show "startswith s p" by (simp add: startswith_def)
qed

section \<open>The public function\<close>

lemma call_priv_train_world:
  assumes "call_priv_train env ps dtrain evals n g pfx path freq kw w = (r, w1)"
  shows "spawn_count w1 \<le> spawn_count w + n"
    and "r = Inl e \<Longrightarrow> files w \<subseteq> files w1"
    and "r = Inr v \<Longrightarrow> \<not> falsy_str pfx \<Longrightarrow> files w1 \<inter> rank_files path pfx n = {}"
    and "r = Inr v \<Longrightarrow> kw_checkpoint_prefix kw = None"
    and "spawn_count w1 = spawn_count w + n \<or> (w1 = w \<and> (\<exists>e. r = Inl e \<and> e \<noteq> RayActorError))"
proof -
  show "spawn_count w1 \<le> spawn_count w + n"
    using assms priv_train_world[of env ps dtrain evals n g pfx path freq kw w r w1]
    by (auto simp: call_priv_train_def split: if_splits sum.splits)
  show "r = Inl e \<Longrightarrow> files w \<subseteq> files w1"
    using assms priv_train_world[of env ps dtrain evals n g pfx path freq kw w r w1]
    by (auto simp: call_priv_train_def split: if_splits sum.splits)
  show "r = Inr v \<Longrightarrow> \<not> falsy_str pfx \<Longrightarrow> files w1 \<inter> rank_files path pfx n = {}"
    using assms priv_train_world[of env ps dtrain evals n g pfx path freq kw w r w1]
    by (auto simp: call_priv_train_def split: if_splits sum.splits)
  show "r = Inr v \<Longrightarrow> kw_checkpoint_prefix kw = None"
    using assms by (auto simp: call_priv_train_def split: if_splits)
  show "spawn_count w1 = spawn_count w + n \<or> (w1 = w \<and> (\<exists>e. r = Inl e \<and> e \<noteq> RayActorError))"
  proof (cases "kw_checkpoint_prefix kw \<noteq> None \<or> kw_checkpoint_path kw \<noteq> None
         \<or> kw_checkpoint_frequency kw \<noteq> None")
    case True
    with assms show ?thesis by (auto simp: call_priv_train_def)
  next
    case False
    with assms have pt: "priv_train env ps dtrain evals n g pfx path freq kw w = (r, w1)"
      by (simp add: call_priv_train_def)
    show ?thesis
    proof (cases "resolve_gpus ps g")
      case (Inl e)
      then have "e = AttributeError"
        by (auto simp: resolve_gpus_def split: if_splits option.splits pyval.splits)
      with Inl priv_train_world[OF pt] show ?thesis by simp
    next
      case (Inr gv)
      with priv_train_world[OF pt] show ?thesis by simp
    qed
  qed
qed

lemma default_prefix_truthy: "kw_checkpoint_prefix kw = None \<Longrightarrow> \<not> falsy_str (get_checkpoint_prefix now kw)"
  by (simp add: get_checkpoint_prefix_def falsy_str_def)

lemma train_attempt_world:
  assumes "train_attempt envs now ps dtrain evals n g kw k w = (r, w1)"
  shows "spawn_count w1 \<le> spawn_count w + n \<and>
      ((\<exists>e. r = Inl e) \<longrightarrow> files w \<subseteq> files w1) \<and>
      ((\<exists>v. r = Inr v) \<longrightarrow> checkpoints_gone now kw n w1)"
  using call_priv_train_world(1,2)[OF assms[unfolded train_attempt_def]]
    call_priv_train_world(3)[OF assms[unfolded train_attempt_def] _ default_prefix_truthy]
    call_priv_train_world(4)[OF assms[unfolded train_attempt_def]]
  by (auto simp: checkpoints_gone_def)

lemma train_post:
  assumes "train envs now ps dtrain evals n g R kw w = Some y"
  shows "loop_post (train_attempt envs now ps dtrain evals n g kw) (max_restarts R) n
           (checkpoints_gone now kw n) 0 w y"
proof (rule train_loop_post)
  show "train_loop (train_attempt envs now ps dtrain evals n g kw) (max_restarts R)
          (get_checkpoint_path kw) (get_checkpoint_frequency kw) 0 w = Some y"
    using assms by (simp add: train_def)
  show "enat 0 \<le> max_restarts R" by (simp add: zero_enat_def[symmetric])
  show "\<And>k w r w1. train_attempt envs now ps dtrain evals n g kw k w = (r, w1) \<Longrightarrow>
      spawn_count w1 \<le> spawn_count w + n \<and>
      ((\<exists>e. r = Inl e) \<longrightarrow> files w \<subseteq> files w1) \<and>
      ((\<exists>v. r = Inr v) \<longrightarrow> checkpoints_gone now kw n w1)"
    by (rule train_attempt_world)
qed

lemma train_terminates:
  "0 \<le> R \<Longrightarrow> \<exists>y. train envs now ps dtrain evals n g R kw w = Some y"
  using train_loop_terminates[of 0 "nat R"]
  by (simp add: train_def max_restarts_def)

section \<open>The events of a call of the actor\<close>

lemma bind_actE:
  assumes "bind_act m f a w = (r, a', w')"
  obtains (ok) v a1 w1 where "m a w = (Returns v, a1, w1)" "f v a1 w1 = (r, a', w')"
  | (raised) e where "m a w = (Raises e, a', w')" "r = Raises e"
  | (died) "m a w = (Dies, a', w')" "r = Dies"
proof -
  obtain r0 a1 w1 where m: "m a w = (r0, a1, w1)" by (cases "m a w") auto
  show thesis
  proof (cases r0)
    case (Returns v)
    with assms m have "f v a1 w1 = (r, a', w')" by (simp add: bind_act_def)
    with m Returns show thesis by (auto intro: ok)
  next
    case (Raises e)
    with assms m show thesis by (auto simp: bind_act_def intro: raised)
  next
    case Dies
    with assms m show thesis by (auto simp: bind_act_def intro: died)
  qed
qed

lemma act_emitsD:
  assumes "act_emits P m" and "m a w = (r, a1, w1)"
  obtains evs where "trace w1 = trace w @ evs" "list_all P evs" "ident a1 = ident a"
proof -
  from assms(1) have "ident (fst (snd (m a w))) = ident a \<and>
        (\<exists>evs. trace (snd (snd (m a w))) = trace w @ evs \<and> list_all P evs)"
    unfolding act_emits_def by blast
  with assms(2) show thesis by (auto intro: that)
qed

lemma act_emits_bind:
  assumes "act_emits P m" and "\<And>v. act_emits P (f v)"
  shows "act_emits P (bind_act m f)"
  unfolding act_emits_def
proof (intro allI)
  fix a w
  obtain r a' w' where b: "bind_act m f a w = (r, a', w')" by (cases "bind_act m f a w") auto
  have "ident a' = ident a \<and> (\<exists>evs. trace w' = trace w @ evs \<and> list_all P evs)"
    using b
  proof (cases rule: bind_actE)
    case (ok v a1 w1)
    from act_emitsD[OF assms(1) ok(1)] obtain e1 where
      1: "trace w1 = trace w @ e1" "list_all P e1" "ident a1 = ident a" .
    from act_emitsD[OF assms(2) ok(2)] obtain e2 where
      2: "trace w' = trace w1 @ e2" "list_all P e2" "ident a' = ident a1" .
    from 1 2 have "trace w' = trace w @ (e1 @ e2)" "list_all P (e1 @ e2)" by simp_all
    with 1 2 show ?thesis by metis
  next
    case (raised e)
    from act_emitsD[OF assms(1) raised(1)] show ?thesis by metis
  next
    case died
    from act_emitsD[OF assms(1) died(1)] show ?thesis by metis
  qed
  with b show "ident (fst (snd (bind_act m f a w))) = ident a \<and>
        (\<exists>evs. trace (snd (snd (bind_act m f a w))) = trace w @ evs \<and> list_all P evs)"
    by simp
qed

lemma act_emits_load_data: "act_emits is_load (load_data env d)"
  by (auto simp: act_emits_def load_data_def Let_def emit_def split: outcome.splits prod.splits)

lemma act_emits_ensure_loaded: "act_emits is_load (ensure_loaded env d)"
  using act_emits_load_data[of env d]
  by (auto simp: act_emits_def ensure_loaded_def)

lemma act_emits_lookup_data: "act_emits P (lookup_data d)"
  by (auto simp: act_emits_def lookup_data_def split: option.splits)

lemma act_emits_checkpoint_exists: "act_emits P checkpoint_exists"
  by (auto simp: act_emits_def checkpoint_exists_def split: option.splits)

lemma act_emits_load_evals: "act_emits is_load (load_evals env evals acc)"
proof (induction evals arbitrary: acc)
  case Nil
  show ?case by (simp add: act_emits_def)
next
  case (Cons ev evals)
  obtain deval name where ev: "ev = (deval, name)" by (cases ev)
  have "act_emits is_load (bind_act (ensure_loaded env deval) (\<lambda>_.
     bind_act (lookup_data deval) (\<lambda>m.
       load_evals env evals (acc @ [(m, name)]))))"
    by (intro act_emits_bind act_emits_ensure_loaded act_emits_lookup_data Cons.IH)
  then show ?case by (simp add: ev act_emits_def)
qed

lemma save_checkpoint_callback_trace:
  "\<exists>evs. trace (snd (save_checkpoint_callback a i w)) = trace w @ evs \<and> list_all is_save evs"
  by (auto simp: save_checkpoint_callback_def save_model_def emit_def split: option.splits)

lemma act_emits_run_callbacks: "act_emits is_save (run_callbacks cbs i)"
  unfolding act_emits_def
proof (intro allI)
  fix a w
  show "ident (fst (snd (run_callbacks cbs i a w))) = ident a \<and>
        (\<exists>evs. trace (snd (snd (run_callbacks cbs i a w))) = trace w @ evs \<and> list_all is_save evs)"
  proof (induction cbs arbitrary: w)
    case Nil
    show ?case by simp
  next
    case (Cons cb cbs)
    show ?case
    proof (cases cb)
      case (UserCallback k)
      then show ?thesis using Cons.IH by simp
    next
      case SaveCheckpointCallback
      obtain r w1 where s: "save_checkpoint_callback a i w = (r, w1)"
        by (cases "save_checkpoint_callback a i w")
      from save_checkpoint_callback_trace[of a i w] s obtain e1 where
        e1: "trace w1 = trace w @ e1" "list_all is_save e1" by auto
      show ?thesis
      proof (cases r)
        case (Returns u)
        from Cons.IH[of w1] obtain e2 where
          e2: "trace (snd (snd (run_callbacks cbs i a w1))) = trace w1 @ e2" "list_all is_save e2"
          and i2: "ident (fst (snd (run_callbacks cbs i a w1))) = ident a" by auto
        from e1 e2 have "trace (snd (snd (run_callbacks cbs i a w1))) = trace w @ (e1 @ e2)"
          "list_all is_save (e1 @ e2)" by simp_all
        with SaveCheckpointCallback s Returns i2 show ?thesis by simp
      next
        case (Raises e)
        with SaveCheckpointCallback s e1 show ?thesis by auto
      next
        case Dies
        with SaveCheckpointCallback s e1 show ?thesis by auto
      qed
    qed
  qed
qed

lemma act_emits_run_iterations: "act_emits is_save (run_iterations cbs is)"
proof (induction "is")
  case Nil
  show ?case by (simp add: act_emits_def)
next
  case (Cons i "is")
  have "act_emits is_save (bind_act (run_callbacks cbs (int i)) (\<lambda>_. run_iterations cbs is))"
    by (intro act_emits_bind act_emits_run_callbacks Cons.IH)
  then show ?case by (simp add: act_emits_def)
qed

lemma xgb_train_trace:
  assumes "xgb_train env ps dm evs kw a w = (r, a1, w1)"
  shows "ident a1 = ident a \<and>
         (\<exists>tr saves. is_xgb_train tr \<and> list_all is_save saves \<and> trace w1 = trace w @ tr # saves)"
proof -
  let ?cbs = "case kw_callbacks kw of None \<Rightarrow> [] | Some c \<Rightarrow> c"
  let ?tr = "EvXgbTrain ps dm evs (kw_xgb_model kw) ?cbs"
  let ?k = "\<lambda>(u::unit) (a1::actor) (w1::world). (snd (engine env (rank a)), a1, w1)"
  have k: "act_emits is_save (?k u)" for u :: unit by (simp add: act_emits_def)
  have "act_emits is_save (bind_act (run_iterations ?cbs [0 ..< fst (engine env (rank a))]) ?k)"
    by (intro act_emits_bind act_emits_run_iterations k)
  moreover have "bind_act (run_iterations ?cbs [0 ..< fst (engine env (rank a))]) ?k a (emit ?tr w)
      = (r, a1, w1)"
    using assms by (simp add: xgb_train_def Let_def)
  ultimately obtain saves where "trace w1 = trace (emit ?tr w) @ saves" "list_all is_save saves"
    "ident a1 = ident a"
    by (rule act_emitsD)
  then have "ident a1 = ident a \<and> is_xgb_train ?tr \<and> list_all is_save saves \<and>
      trace w1 = trace w @ ?tr # saves"
    by (simp add: emit_def)
  then show ?thesis by blast
qed

lemma rabit_block_trace:
  assumes "rabit_context env aid rargs (xgb_train env ps dm evs kw) a w = (r, a1, w1)"
  shows "(trace w1 = trace w @ [EvRabitInit (rargs @ [rabit_task_arg aid])] \<and> (\<forall>v. r \<noteq> Returns v)) \<or>
         (\<exists>tr saves. is_xgb_train tr \<and> list_all is_save saves \<and>
            trace w1 = trace w @ EvRabitInit (rargs @ [rabit_task_arg aid]) # tr # saves @
               (if r = Dies then [] else [EvRabitFinalize]))"
proof (cases "rabit_init env (rank a)")
  case (Raises e)
  with assms show ?thesis by (auto simp: rabit_context_def Let_def emit_def)
next
  case Dies
  with assms show ?thesis by (auto simp: rabit_context_def Let_def emit_def)
next
  case (Returns u)
  let ?w0 = "emit (EvRabitInit (rargs @ [rabit_task_arg aid])) w"
  obtain r2 a2 w2 where b: "xgb_train env ps dm evs kw a ?w0 = (r2, a2, w2)"
    by (cases "xgb_train env ps dm evs kw a ?w0") auto
  from xgb_train_trace[OF b] obtain tr saves where
    t: "is_xgb_train tr" "list_all is_save saves" "trace w2 = trace ?w0 @ tr # saves" by blast
  have "r = r2 \<and> w1 = (if r2 = Dies then w2 else emit EvRabitFinalize w2)"
    using assms Returns b by (cases r2) (auto simp: rabit_context_def Let_def)
  with t have "trace w1 = trace w @ EvRabitInit (rargs @ [rabit_task_arg aid]) # tr # saves @
               (if r = Dies then [] else [EvRabitFinalize])"
    by (simp add: emit_def)
  with t show ?thesis by blast
qed

lemma load_data_count: "load_count d (snd (snd (load_data env d a w))) = load_count d w + 1"
  by (auto simp: load_data_def Let_def load_count_def emit_def split: outcome.splits prod.splits)

section \<open>The save hook inside the engine\<close>

lemma same_config_refl: "same_config a a"
  by (simp add: same_config_def)

lemma same_config_trans: "same_config a b \<Longrightarrow> same_config b c \<Longrightarrow> same_config a c"
  by (simp add: same_config_def)

lemma same_config_checkpoint_file: "same_config a b \<Longrightarrow> checkpoint_file b = checkpoint_file a"
  by (simp add: same_config_def checkpoint_file_def)

lemma act_keepsD: "act_keeps m \<Longrightarrow> m a w = (r, a1, w1) \<Longrightarrow> same_config a a1"
proof -
  assume k: "act_keeps m" and e: "m a w = (r, a1, w1)"
  from k have "same_config a (fst (snd (m a w)))" by (simp add: act_keeps_def)
  with e show ?thesis by simp
qed

lemma act_keeps_bind:
  assumes "act_keeps m" and "\<And>v. act_keeps (f v)"
  shows "act_keeps (bind_act m f)"
  unfolding act_keeps_def
proof (intro allI)
  fix a w
  obtain r a' w' where b: "bind_act m f a w = (r, a', w')" by (cases "bind_act m f a w") auto
  have "same_config a a'"
    using b
  proof (cases rule: bind_actE)
    case (ok v a1 w1)
    from act_keepsD[OF assms(1) ok(1)] act_keepsD[OF assms(2) ok(2)]
    show ?thesis by (rule same_config_trans)
  next
    case (raised e)
    from act_keepsD[OF assms(1) raised(1)] show ?thesis .
  next
    case died
    from act_keepsD[OF assms(1) died(1)] show ?thesis .
  qed
  with b show "same_config a (fst (snd (bind_act m f a w)))" by simp
qed

lemma act_keeps_load_data: "act_keeps (load_data env d)"
  by (auto simp: act_keeps_def load_data_def Let_def same_config_def split: outcome.splits prod.splits)

lemma act_keeps_ensure_loaded: "act_keeps (ensure_loaded env d)"
  using act_keeps_load_data[of env d]
  by (auto simp: act_keeps_def ensure_loaded_def same_config_refl)

lemma act_keeps_lookup_data: "act_keeps (lookup_data d)"
  by (auto simp: act_keeps_def lookup_data_def same_config_refl split: option.splits)

lemma act_keeps_checkpoint_exists: "act_keeps checkpoint_exists"
  by (auto simp: act_keeps_def checkpoint_exists_def same_config_refl split: option.splits)

lemma act_keeps_load_evals: "act_keeps (load_evals env evals acc)"
proof (induction evals arbitrary: acc)
  case Nil
  show ?case by (simp add: act_keeps_def same_config_refl)
next
  case (Cons ev evals)
  obtain deval name where ev: "ev = (deval, name)" by (cases ev)
  have "act_keeps (bind_act (ensure_loaded env deval) (\<lambda>_.
     bind_act (lookup_data deval) (\<lambda>m.
       load_evals env evals (acc @ [(m, name)]))))"
    by (intro act_keeps_bind act_keeps_ensure_loaded act_keeps_lookup_data Cons.IH)
  then show ?case by (simp add: ev act_keeps_def)
qed

lemma save_checkpoint_callback_nonzero:
  "checkpoint_frequency a \<noteq> 0 \<Longrightarrow> checkpoint_file a = Some p \<Longrightarrow>
     save_checkpoint_callback a i w =
       (Returns (),
        if checkpoint_frequency a dvd i
        then emit (EvSaveModel p i) (w\<lparr>files := insert p (files w)\<rparr>)
        else w)"
  by (simp add: save_checkpoint_callback_def save_model_def dvd_eq_mod_eq_0)

lemma run_callbacks_nonzero:
  assumes f: "checkpoint_frequency a \<noteq> 0" and c: "checkpoint_file a = Some p"
  shows "\<exists>evs w'. run_callbacks cbs i a w = (Returns (), a, w') \<and> trace w' = trace w @ evs \<and>
           set evs = (if SaveCheckpointCallback \<in> set cbs \<and> checkpoint_frequency a dvd i
                      then {EvSaveModel p i} else {}) \<and>
           files w \<subseteq> files w' \<and> (evs \<noteq> [] \<longrightarrow> p \<in> files w')"
proof (induction cbs arbitrary: w)
  case Nil
  show ?case by simp
next
  case (Cons cb cbs)
  show ?case
  proof (cases cb)
    case (UserCallback k)
    with Cons.IH[of w] show ?thesis by simp
  next
    case SaveCheckpointCallback
    let ?w1 = "if checkpoint_frequency a dvd i
        then emit (EvSaveModel p i) (w\<lparr>files := insert p (files w)\<rparr>) else w"
    let ?e1 = "if checkpoint_frequency a dvd i then [EvSaveModel p i] else []"
    have t1: "trace ?w1 = trace w @ ?e1" by (simp add: emit_def)
    have f1: "files w \<subseteq> files ?w1" "?e1 \<noteq> [] \<longrightarrow> p \<in> files ?w1"
      by (auto simp: emit_def)
    from Cons.IH[of ?w1] obtain evs w' where
      r: "run_callbacks cbs i a ?w1 = (Returns (), a, w')" "trace w' = trace ?w1 @ evs"
        "set evs = (if SaveCheckpointCallback \<in> set cbs \<and> checkpoint_frequency a dvd i
                      then {EvSaveModel p i} else {})"
        "files ?w1 \<subseteq> files w'" "evs \<noteq> [] \<longrightarrow> p \<in> files w'"
      by blast
    have "run_callbacks (cb # cbs) i a w = (Returns (), a, w')"
      using SaveCheckpointCallback save_checkpoint_callback_nonzero[OF f c, of i w] r(1) by simp
    moreover have "trace w' = trace w @ (?e1 @ evs)" using r(2) t1 by simp
    moreover have "set (?e1 @ evs) = (if SaveCheckpointCallback \<in> set (cb # cbs) \<and> checkpoint_frequency a dvd i
                      then {EvSaveModel p i} else {})"
      using r(3) SaveCheckpointCallback by auto
    moreover have "files w \<subseteq> files w'" using f1(1) r(4) by blast
    moreover have "?e1 @ evs \<noteq> [] \<longrightarrow> p \<in> files w'" using f1(2) r(4,5) by auto
    ultimately show ?thesis by blast
  qed
qed

lemma run_iterations_nonzero:
  assumes f: "checkpoint_frequency a \<noteq> 0" and c: "checkpoint_file a = Some p"
  shows "\<exists>evs w'. run_iterations cbs is a w = (Returns (), a, w') \<and> trace w' = trace w @ evs \<and>
           set evs = {EvSaveModel p (int i) | i. i \<in> set is \<and> SaveCheckpointCallback \<in> set cbs \<and>
                        checkpoint_frequency a dvd int i} \<and>
           files w \<subseteq> files w' \<and> (evs \<noteq> [] \<longrightarrow> p \<in> files w')"
proof (induction "is" arbitrary: w)
  case Nil
  show ?case by simp
next
  case (Cons i "is")
  from run_callbacks_nonzero[OF f c, of cbs "int i" w] obtain e1 w1 where
    1: "run_callbacks cbs (int i) a w = (Returns (), a, w1)" "trace w1 = trace w @ e1"
      "set e1 = (if SaveCheckpointCallback \<in> set cbs \<and> checkpoint_frequency a dvd int i
                      then {EvSaveModel p (int i)} else {})"
      "files w \<subseteq> files w1" "e1 \<noteq> [] \<longrightarrow> p \<in> files w1"
    by blast
  from Cons.IH[of w1] obtain e2 w2 where
    2: "run_iterations cbs is a w1 = (Returns (), a, w2)" "trace w2 = trace w1 @ e2"
      "set e2 = {EvSaveModel p (int j) | j. j \<in> set is \<and> SaveCheckpointCallback \<in> set cbs \<and>
                        checkpoint_frequency a dvd int j}"
      "files w1 \<subseteq> files w2" "e2 \<noteq> [] \<longrightarrow> p \<in> files w2"
    by blast
  have "run_iterations cbs (i # is) a w = (Returns (), a, w2)"
    using 1(1) 2(1) by (simp add: bind_act_def)
  moreover have "trace w2 = trace w @ (e1 @ e2)" using 1(2) 2(2) by simp
  moreover have "set (e1 @ e2) = {EvSaveModel p (int j) | j. j \<in> set (i # is) \<and>
      SaveCheckpointCallback \<in> set cbs \<and> checkpoint_frequency a dvd int j}"
    using 1(3) 2(3) by auto
  moreover have "files w \<subseteq> files w2" using 1(4) 2(4) by blast
  moreover have "e1 @ e2 \<noteq> [] \<longrightarrow> p \<in> files w2" using 1(5) 2(4,5) by auto
  ultimately show ?case by blast
qed

lemma run_callbacks_zero:
  "checkpoint_frequency a = 0 \<Longrightarrow> SaveCheckpointCallback \<in> set cbs \<Longrightarrow>
     run_callbacks cbs i a w = (Raises ZeroDivisionError, a, w)"
proof (induction cbs)
  case Nil
  then show ?case by simp
next
  case (Cons cb cbs)
  then show ?case
    by (cases cb) (auto simp: save_checkpoint_callback_def)
qed

lemma run_iterations_zero:
  "checkpoint_frequency a = 0 \<Longrightarrow> SaveCheckpointCallback \<in> set cbs \<Longrightarrow>
     run_iterations cbs is a w =
       (if is = [] then (Returns (), a, w) else (Raises ZeroDivisionError, a, w))"
  by (cases "is") (simp_all add: bind_act_def run_callbacks_zero)

lemma xgb_train_hook:
  assumes cbs: "kw_callbacks kw = Some cbs" "SaveCheckpointCallback \<in> set cbs"
    and c: "checkpoint_file a = Some p"
    and run: "xgb_train env ps dm evs kw a w = (r, a1, w1)"
  shows "\<exists>saves. trace w1 = trace w @ EvXgbTrain ps dm evs (kw_xgb_model kw) cbs # saves \<and>
           (checkpoint_frequency a \<noteq> 0 \<longrightarrow>
              set saves = {EvSaveModel p (int i) | i. i < fst (engine env (rank a)) \<and>
                             checkpoint_frequency a dvd int i} \<and>
              (saves \<noteq> [] \<longrightarrow> p \<in> files w1)) \<and>
           (checkpoint_frequency a = 0 \<longrightarrow>
              saves = [] \<and> (0 < fst (engine env (rank a)) \<longrightarrow> r = Raises ZeroDivisionError))"
proof -
  let ?tr = "EvXgbTrain ps dm evs (kw_xgb_model kw) cbs"
  let ?k = "fst (engine env (rank a))"
  let ?w0 = "emit ?tr w"
  have t0: "trace ?w0 = trace w @ [?tr]" by (simp add: emit_def)
  have x: "bind_act (run_iterations cbs [0 ..< ?k])
           (\<lambda>_ a1 w1. (snd (engine env (rank a)), a1, w1)) a ?w0 = (r, a1, w1)"
    using run cbs(1) by (simp add: xgb_train_def Let_def)
  show ?thesis
  proof (cases "checkpoint_frequency a = 0")
    case True
    have ri: "run_iterations cbs [0 ..< ?k] a ?w0 =
       (if [0 ..< ?k] = [] then (Returns (), a, ?w0) else (Raises ZeroDivisionError, a, ?w0))"
      using True cbs(2) by (rule run_iterations_zero)
    have w1: "w1 = ?w0"
    proof (cases "?k = 0")
      case True
      with ri have "run_iterations cbs [0 ..< ?k] a ?w0 = (Returns (), a, ?w0)" by simp
      with x show ?thesis by (simp add: bind_act_def)
    next
      case False
      with ri have "run_iterations cbs [0 ..< ?k] a ?w0 = (Raises ZeroDivisionError, a, ?w0)" by simp
      with x show ?thesis by (simp add: bind_act_def)
    qed
    have rz: "r = Raises ZeroDivisionError" if "0 < ?k"
    proof -
      from that ri have "run_iterations cbs [0 ..< ?k] a ?w0 = (Raises ZeroDivisionError, a, ?w0)"
        by simp
      with x show ?thesis by (simp add: bind_act_def)
    qed
    from w1 t0 have "trace w1 = trace w @ ?tr # []" by simp
    with True rz show ?thesis by (intro exI[of _ "[]"]) simp
  next
    case False
    from run_iterations_nonzero[OF False c, of cbs "[0 ..< ?k]" ?w0] obtain saves w2 where
      s: "run_iterations cbs [0 ..< ?k] a ?w0 = (Returns (), a, w2)"
        "trace w2 = trace ?w0 @ saves"
        "set saves = {EvSaveModel p (int i) | i. i \<in> set [0 ..< ?k] \<and> SaveCheckpointCallback \<in> set cbs \<and>
                        checkpoint_frequency a dvd int i}"
        "files ?w0 \<subseteq> files w2" "saves \<noteq> [] \<longrightarrow> p \<in> files w2"
      by blast
    from x s(1) have ww: "w1 = w2" by (simp add: bind_act_def)
    with s(2) t0 have a: "trace w1 = trace w @ ?tr # saves" by simp
    from ww s(5) have fl: "saves \<noteq> [] \<longrightarrow> p \<in> files w1" by simp
    from s(3) cbs(2) have b: "set saves = {EvSaveModel p (int i) | i. i < ?k \<and>
                             checkpoint_frequency a dvd int i}" by simp
    from a b fl False show ?thesis by (intro exI[of _ saves]) simp
  qed
qed

lemma rabit_block_hook:
  assumes cbs: "kw_callbacks kw = Some cbs" "SaveCheckpointCallback \<in> set cbs"
    and c: "checkpoint_file a = Some p"
    and run: "rabit_context env aid rargs (xgb_train env ps dm evs kw) a w = (r, a1, w1)"
  shows "(\<exists>j. \<not> is_xgb_train j \<and> \<not> is_save j \<and> trace w1 = trace w @ [j] \<and> (\<forall>v. r \<noteq> Returns v)) \<or>
         (\<exists>j saves fin. \<not> is_save j \<and> list_all (\<lambda>e. \<not> is_save e) fin \<and>
            trace w1 = trace w @ j # EvXgbTrain ps dm evs (kw_xgb_model kw) cbs # saves @ fin \<and>
            (checkpoint_frequency a \<noteq> 0 \<longrightarrow>
              set saves = {EvSaveModel p (int i) | i. i < fst (engine env (rank a)) \<and>
                             checkpoint_frequency a dvd int i} \<and>
              (saves \<noteq> [] \<longrightarrow> p \<in> files w1)) \<and>
            (checkpoint_frequency a = 0 \<longrightarrow>
              saves = [] \<and> (0 < fst (engine env (rank a)) \<longrightarrow> r = Raises ZeroDivisionError)))"
proof (cases "rabit_init env (rank a)")
  case (Raises e)
  with run have "trace w1 = trace w @ [EvRabitInit (rargs @ [rabit_task_arg aid])] \<and> (\<forall>v. r \<noteq> Returns v)"
    by (auto simp: rabit_context_def Let_def emit_def)
  then show ?thesis by (intro disjI1 exI[of _ "EvRabitInit (rargs @ [rabit_task_arg aid])"]) simp
next
  case Dies
  with run have "trace w1 = trace w @ [EvRabitInit (rargs @ [rabit_task_arg aid])] \<and> (\<forall>v. r \<noteq> Returns v)"
    by (auto simp: rabit_context_def Let_def emit_def)
  then show ?thesis by (intro disjI1 exI[of _ "EvRabitInit (rargs @ [rabit_task_arg aid])"]) simp
next
  case (Returns u)
  let ?j = "EvRabitInit (rargs @ [rabit_task_arg aid])"
  let ?w0 = "emit ?j w"
  obtain r2 a2 w2 where b: "xgb_train env ps dm evs kw a ?w0 = (r2, a2, w2)"
    by (cases "xgb_train env ps dm evs kw a ?w0") auto
  from xgb_train_hook[OF cbs c b] obtain saves where
    s0: "trace w2 = trace ?w0 @ EvXgbTrain ps dm evs (kw_xgb_model kw) cbs # saves \<and>
      (checkpoint_frequency a \<noteq> 0 \<longrightarrow>
              set saves = {EvSaveModel p (int i) | i. i < fst (engine env (rank a)) \<and>
                             checkpoint_frequency a dvd int i} \<and>
              (saves \<noteq> [] \<longrightarrow> p \<in> files w2)) \<and>
      (checkpoint_frequency a = 0 \<longrightarrow>
              saves = [] \<and> (0 < fst (engine env (rank a)) \<longrightarrow> r2 = Raises ZeroDivisionError))"
    by (rule exE)
  note s = conjunct1[OF s0] conjunct1[OF conjunct2[OF s0]] conjunct2[OF conjunct2[OF s0]]
  let ?fin = "if r2 = Dies then [] else [EvRabitFinalize]"
  have rw: "r = r2 \<and> w1 = (if r2 = Dies then w2 else emit EvRabitFinalize w2)"
    using run Returns b by (cases r2) (auto simp: rabit_context_def Let_def)
  with s(1) have "trace w1 = trace w @ ?j # EvXgbTrain ps dm evs (kw_xgb_model kw) cbs # saves @ ?fin"
    by (simp add: emit_def)
  moreover have "\<not> is_save ?j" "list_all (\<lambda>e. \<not> is_save e) ?fin" by simp_all
  ultimately have "\<not> is_save ?j \<and> list_all (\<lambda>e. \<not> is_save e) ?fin \<and>
            trace w1 = trace w @ ?j # EvXgbTrain ps dm evs (kw_xgb_model kw) cbs # saves @ ?fin \<and>
            (checkpoint_frequency a \<noteq> 0 \<longrightarrow>
              set saves = {EvSaveModel p (int i) | i. i < fst (engine env (rank a)) \<and>
                             checkpoint_frequency a dvd int i} \<and>
              (saves \<noteq> [] \<longrightarrow> p \<in> files w1)) \<and>
            (checkpoint_frequency a = 0 \<longrightarrow>
              saves = [] \<and> (0 < fst (engine env (rank a)) \<longrightarrow> r = Raises ZeroDivisionError))"
    using s(2,3) rw by (auto simp: emit_def)
  then show ?thesis by (intro disjI2 exI[of _ ?j] exI[of _ saves] exI[of _ ?fin])
qed

lemma actor_train_cases:
  assumes run: "actor_train env rabit_args ps dtrain evals kw a w = (r, a', w')"
  obtains (early) loads where "trace w' = trace w @ loads" "list_all is_load loads"
      "\<forall>v. r \<noteq> Returns v"
  | (block) loads a4 w4 p local_dtrain local_evals kw2 cbs where
      "trace w4 = trace w @ loads" "list_all is_load loads" "same_config a a4"
      "checkpoint_file a = Some p" "kw_callbacks kw2 = Some (cbs @ [SaveCheckpointCallback])"
      "rabit_context env (str_nat (ident a)) rabit_args
         (xgb_train env ps local_dtrain local_evals kw2) a4 w4 = (r, a', w')"
proof -
  from run[unfolded actor_train_def] show thesis
  proof (cases rule: bind_actE)
    case (raised e)
    from act_emitsD[OF act_emits_ensure_loaded raised(1)] raised(2) early show ?thesis by blast
  next
    case died
    from act_emitsD[OF act_emits_ensure_loaded died(1)] died(2) early show ?thesis by blast
  next
    case (ok u a1 w1)
    from act_emitsD[OF act_emits_ensure_loaded ok(1)] obtain e1 where
      1: "trace w1 = trace w @ e1" "list_all is_load e1" .
    have k1: "same_config a a1" using act_keeps_ensure_loaded ok(1) by (rule act_keepsD)
    from ok(2) show ?thesis
    proof (cases rule: bind_actE)
      case (raised e)
      from act_emitsD[OF act_emits_lookup_data[of is_load] raised(1)] obtain e2 where
        "trace w' = trace w1 @ e2" "list_all is_load e2" .
      with 1 have "trace w' = trace w @ (e1 @ e2)" "list_all is_load (e1 @ e2)" by simp_all
      with raised(2) early show ?thesis by blast
    next
      case died
      from act_emitsD[OF act_emits_lookup_data[of is_load] died(1)] obtain e2 where
        "trace w' = trace w1 @ e2" "list_all is_load e2" .
      with 1 have "trace w' = trace w @ (e1 @ e2)" "list_all is_load (e1 @ e2)" by simp_all
      with died(2) early show ?thesis by blast
    next
      case (ok local_dtrain a2 w2)
      from act_emitsD[OF act_emits_lookup_data[of is_load] ok(1)] obtain e2 where
        "trace w2 = trace w1 @ e2" "list_all is_load e2" .
      with 1 have 2: "trace w2 = trace w @ (e1 @ e2)" "list_all is_load (e1 @ e2)" by simp_all
      have k2: "same_config a a2"
        using k1 act_keepsD[OF act_keeps_lookup_data ok(1)] by (rule same_config_trans)
      from ok(2) show ?thesis
      proof (cases rule: bind_actE)
        case (raised e)
        from act_emitsD[OF act_emits_load_evals raised(1)] obtain e3 where
          "trace w' = trace w2 @ e3" "list_all is_load e3" .
        with 2 have "trace w' = trace w @ (e1 @ e2 @ e3)" "list_all is_load (e1 @ e2 @ e3)" by simp_all
        with raised(2) early show ?thesis by blast
      next
        case died
        from act_emitsD[OF act_emits_load_evals died(1)] obtain e3 where
          "trace w' = trace w2 @ e3" "list_all is_load e3" .
        with 2 have "trace w' = trace w @ (e1 @ e2 @ e3)" "list_all is_load (e1 @ e2 @ e3)" by simp_all
        with died(2) early show ?thesis by blast
      next
        case (ok local_evals a3 w3)
        from act_emitsD[OF act_emits_load_evals ok(1)] obtain e3 where
          "trace w3 = trace w2 @ e3" "list_all is_load e3" .
        with 2 have 3: "trace w3 = trace w @ (e1 @ e2 @ e3)" "list_all is_load (e1 @ e2 @ e3)"
          by simp_all
        have k3: "same_config a a3"
          using k2 act_keepsD[OF act_keeps_load_evals ok(1)] by (rule same_config_trans)
        from ok(2) show ?thesis
        proof (cases rule: bind_actE)
          case (raised e)
          from act_emitsD[OF act_emits_checkpoint_exists[of is_load] raised(1)] obtain e4 where
            "trace w' = trace w3 @ e4" "list_all is_load e4" .
          with 3 have "trace w' = trace w @ (e1 @ e2 @ e3 @ e4)" "list_all is_load (e1 @ e2 @ e3 @ e4)"
            by simp_all
          with raised(2) early show ?thesis by blast
        next
          case died
          from act_emitsD[OF act_emits_checkpoint_exists[of is_load] died(1)] obtain e4 where
            "trace w' = trace w3 @ e4" "list_all is_load e4" .
          with 3 have "trace w' = trace w @ (e1 @ e2 @ e3 @ e4)" "list_all is_load (e1 @ e2 @ e3 @ e4)"
            by simp_all
          with died(2) early show ?thesis by blast
        next
          case (ok pe a4 w4)
          from act_emitsD[OF act_emits_checkpoint_exists[of is_load] ok(1)] obtain e4 where
            "trace w4 = trace w3 @ e4" "list_all is_load e4" .
          with 3 have 4: "trace w4 = trace w @ (e1 @ e2 @ e3 @ e4)"
            "list_all is_load (e1 @ e2 @ e3 @ e4)"
            by simp_all
          have k4: "same_config a a4"
            using k3 act_keepsD[OF act_keeps_checkpoint_exists ok(1)] by (rule same_config_trans)
          from ok(1) have cf: "checkpoint_file a3 = Some (fst pe)"
            by (auto simp: checkpoint_exists_def split: option.splits)
          with k3 have cfa: "checkpoint_file a = Some (fst pe)"
            by (simp add: same_config_checkpoint_file)
          let ?kw1 = "if snd pe then kw\<lparr>kw_xgb_model := Some (fst pe)\<rparr> else kw"
          let ?cbs = "case kw_callbacks ?kw1 of Some c \<Rightarrow> c | None \<Rightarrow> []"
          let ?kw2 = "?kw1\<lparr>kw_callbacks := Some (?cbs @ [SaveCheckpointCallback])\<rparr>"
          have id: "ident a4 = ident a" using k4 by (simp add: same_config_def)
          have blk: "rabit_context env (str_nat (ident a)) rabit_args
              (xgb_train env ps local_dtrain local_evals ?kw2) a4 w4 = (r, a', w')"
            using ok(2) id by (cases pe) (auto simp: Let_def split: if_splits)
          have "kw_callbacks ?kw2 = Some (?cbs @ [SaveCheckpointCallback])" by simp
          from block[OF 4 k4 cfa this blk] show ?thesis .
        qed
      qed
    qed
  qed
qed

lemma loads_only:
  assumes "list_all is_load loads"
  shows "EvSaveModel q i \<notin> set loads" and "\<not> list_ex is_xgb_train loads"
    and "\<not> list_ex installs_hook loads"
proof -
  show "EvSaveModel q i \<notin> set loads"
    using assms by (auto simp: list_all_iff)
  have "\<not> is_xgb_train e \<and> \<not> installs_hook e" if "is_load e" for e
    using that by (cases e) simp_all
  with assms show "\<not> list_ex is_xgb_train loads" "\<not> list_ex installs_hook loads"
    by (auto simp: list_all_iff list_ex_iff)
qed

lemma not_save_mem: "list_all (\<lambda>e. \<not> is_save e) fin \<Longrightarrow> EvSaveModel q i \<notin> set fin"
  by (auto simp: list_all_iff)

lemma new_events_append: "trace w' = trace w @ evs \<Longrightarrow> new_events w w' = evs"
  by (simp add: new_events_def)

section \<open>Checkpoint file naming (C6)\<close>

text \<open>
  C6, as the specification states it, asks that the path be exactly
  \<^verbatim>\<open>{checkpointDir}/{checkpointPrefix}_{rank:05d}.xgb\<close>. The code joins with
  \<^verbatim>\<open>os.path.join\<close>, so for a directory that ends with the separator the two differ:
  the statement fails for the directory \<^verbatim>\<open>/tmp/\<close>, prefix \<^verbatim>\<open>ckpt\<close>, rank 3.
\<close>

theorem checkpoint_file_trailing_separator:
  "priv_checkpoint_file ''/tmp/'' (Some ''ckpt'') 3 = Some ''/tmp/ckpt_00003.xgb'' \<and>
   spec_checkpoint_path ''/tmp/'' ''ckpt'' 3 = ''/tmp//ckpt_00003.xgb'' \<and>
   priv_checkpoint_file ''/tmp/'' (Some ''ckpt'') 3 \<noteq> Some (spec_checkpoint_path ''/tmp/'' ''ckpt'' 3)"
  by code_simp


text \<open>
  C6 (amended): \<^verbatim>\<open>_checkpoint_file\<close> returns none exactly when the prefix is \<^verbatim>\<open>None\<close> or
  empty; for a non-empty directory that does not end with the separator and a
  prefix that does not begin with it, the result is exactly the path of the
  specification; and for any directory and any configured prefix two distinct ranks
  never get the same path.
\<close>

theorem checkpoint_file_naming:
  "(priv_checkpoint_file path pfx r = None \<longleftrightarrow> falsy_str pfx) \<and>
   (pfx = Some p \<and> p \<noteq> [] \<and> path \<noteq> [] \<and> \<not> endswith path ''/'' \<and> \<not> startswith p ''/'' \<longrightarrow>
      priv_checkpoint_file path pfx r = Some (spec_checkpoint_path path p r)) \<and>
   (\<not> falsy_str pfx \<and> priv_checkpoint_file path pfx r1 = priv_checkpoint_file path pfx r2 \<longrightarrow>
      r1 = r2)"
proof (intro conjI impI)
  show "priv_checkpoint_file path pfx r = None \<longleftrightarrow> falsy_str pfx"
    by (simp add: priv_checkpoint_file_def)
next
  assume a: "pfx = Some p \<and> p \<noteq> [] \<and> path \<noteq> [] \<and> \<not> endswith path ''/'' \<and> \<not> startswith p ''/''"
  then have "\<not> startswith (p @ ''_'' @ format_05d r @ ''.xgb'') ''/''"
    by (cases p) (simp_all add: startswith_def)
  with a show "priv_checkpoint_file path pfx r = Some (spec_checkpoint_path path p r)"
    by (simp add: priv_checkpoint_file_def falsy_str_def os_path_join_def
        spec_checkpoint_path_def format_05d_def)
next
  assume "\<not> falsy_str pfx \<and> priv_checkpoint_file path pfx r1 = priv_checkpoint_file path pfx r2"
  then show "r1 = r2" using priv_checkpoint_file_inj by blast
qed

theorem checkpoint_file_naming_witness:
  "priv_checkpoint_file ''/tmp'' (Some ''ckpt'') 7 = Some ''/tmp/ckpt_00007.xgb'' \<and>
   priv_checkpoint_file ''/tmp'' (Some ''ckpt'') 7 \<noteq> priv_checkpoint_file ''/tmp'' (Some ''ckpt'') 12 \<and>
   priv_checkpoint_file ''/tmp'' (Some '''') 7 = None"
proof -
  have s: "spec_checkpoint_path ''/tmp'' ''ckpt'' 7 = ''/tmp/ckpt_00007.xgb''"
    by code_simp
  have h: "Some ''ckpt'' = Some ''ckpt'' \<and> ''ckpt'' \<noteq> [] \<and> ''/tmp'' \<noteq> [] \<and>
      \<not> endswith ''/tmp'' ''/'' \<and> \<not> startswith ''ckpt'' ''/''"
    by (simp add: endswith_def startswith_def)
  have f: "\<not> falsy_str (Some ''ckpt'')" "falsy_str (Some '''')"
    by (simp_all add: falsy_str_def)
  have "priv_checkpoint_file ''/tmp'' (Some ''ckpt'') 7 = Some ''/tmp/ckpt_00007.xgb''"
    using checkpoint_file_naming[of "''/tmp''" "Some ''ckpt''" 7 "''ckpt''"] h s by simp
  moreover have "priv_checkpoint_file ''/tmp'' (Some ''ckpt'') 7 \<noteq> priv_checkpoint_file ''/tmp'' (Some ''ckpt'') 12"
    using checkpoint_file_naming[of "''/tmp''" "Some ''ckpt''" 7 "''ckpt''" 7 12] f by auto
  moreover have "priv_checkpoint_file ''/tmp'' (Some '''') 7 = None"
    using checkpoint_file_naming[of "''/tmp''" "Some ''''" 7] f by simp
  ultimately show ?thesis by simp
qed

section \<open>GPUs per worker (C7)\<close>

text \<open>
  C7: an explicit GPU count (anything but the sentinel \<open>-1\<close>) is used unchanged; the
  sentinel resolves to 1 when the parameters indicate a GPU training mode and to 0
  otherwise, for parameters whose \<^verbatim>\<open>tree_method\<close>, if present, is a string.
\<close>

theorem gpus_per_worker_resolution:
  "(g \<noteq> - 1 \<longrightarrow> resolve_gpus ps g = Inr g) \<and>
   (g = - 1 \<and> tree_method_is_str ps \<longrightarrow>
      resolve_gpus ps g = Inr (if gpu_mode ps then 1 else 0))"
  by (simp add: resolve_gpus_def gpu_mode_def tree_method_is_str_def startswith_prefix
      split: option.splits pyval.splits)

theorem gpus_per_worker_resolution_witness:
  "resolve_gpus gpu_params (- 1) = Inr 1 \<and> resolve_gpus [(''tree_method'', StrV ''hist'')] (- 1) = Inr 0
   \<and> resolve_gpus [] (- 1) = Inr 0 \<and> resolve_gpus gpu_params 2 = Inr 2"
proof -
  have a: "tree_method_is_str gpu_params" "gpu_mode gpu_params"
    by (simp_all add: tree_method_is_str_def gpu_mode_def gpu_params_def)
  have b: "tree_method_is_str [(''tree_method'', StrV ''hist'')]"
    "\<not> gpu_mode [(''tree_method'', StrV ''hist'')]"
    by (simp_all add: tree_method_is_str_def gpu_mode_def)
  have c: "tree_method_is_str []" "\<not> gpu_mode []"
    by (simp_all add: tree_method_is_str_def gpu_mode_def)
  show ?thesis
    using gpus_per_worker_resolution[of "- 1" gpu_params]
      gpus_per_worker_resolution[of "- 1" "[(''tree_method'', StrV ''hist'')]"]
      gpus_per_worker_resolution[of "- 1" "[]"]
      gpus_per_worker_resolution[of 2 gpu_params] a b c
    by simp
qed

section \<open>The periodic save hook (C8)\<close>

text \<open>
  C8, as the specification states it, asks that for every iteration index the hook
  write the checkpoint if and only if the index is a multiple of the checkpoint
  frequency. With the frequency 0 the index 0 is such a multiple, but the modulo of
  the hook raises: called at index 0 it writes nothing, and a call of the actor's
  \<^verbatim>\<open>train\<close> ends with \<^verbatim>\<open>ZeroDivisionError\<close> and no checkpoint file.
\<close>

theorem save_hook_zero_frequency:
  "checkpoint_frequency zero_frequency_actor dvd 0 \<and>
   save_checkpoint_callback zero_frequency_actor 0 empty_world =
     (Raises ZeroDivisionError, empty_world) \<and>
   fst (actor_train ok_env [''DMLC_NUM_WORKER=4''] [] 0 [] no_kwargs zero_frequency_actor empty_world) =
     Raises ZeroDivisionError \<and>
   files (snd (snd (actor_train ok_env [''DMLC_NUM_WORKER=4''] [] 0 [] no_kwargs
      zero_frequency_actor empty_world))) = {}"
proof -
  have "checkpoint_frequency zero_frequency_actor = 0"
    by (simp add: zero_frequency_actor_def)
  then have a: "checkpoint_frequency zero_frequency_actor dvd 0"
    and b: "save_checkpoint_callback zero_frequency_actor 0 empty_world =
      (Raises ZeroDivisionError, empty_world)"
    by (simp_all add: save_checkpoint_callback_def)
  have c: "fst (actor_train ok_env [''DMLC_NUM_WORKER=4''] [] 0 [] no_kwargs zero_frequency_actor
      empty_world) = Raises ZeroDivisionError"
    by code_simp
  have d: "files (snd (snd (actor_train ok_env [''DMLC_NUM_WORKER=4''] [] 0 [] no_kwargs
      zero_frequency_actor empty_world))) = {}"
    by code_simp
  from a b c d show ?thesis by blast
qed

text \<open>
  C8 (amended): a call of the actor's \<^verbatim>\<open>train\<close> that returns has called the engine,
  and every call of the engine has the save hook as its last callback. For a
  non-zero checkpoint frequency the checkpoints saved during the call are exactly
  those of the iteration indices \<open>i\<close> that the engine runs and that are multiples of
  the frequency, each to this rank's checkpoint file, which exists afterwards as soon
  as one iteration ran. With the frequency 0 no checkpoint is saved, and the call
  raises \<^verbatim>\<open>ZeroDivisionError\<close> as soon as one iteration runs.
\<close>

theorem installed_save_hook_period:
  "actor_train env rabit_args ps dtrain evals kw a w = (r, a', w') \<Longrightarrow>
     ((\<exists>v. r = Returns v) \<longrightarrow> list_ex is_xgb_train (new_events w w')) \<and>
     (list_ex is_xgb_train (new_events w w') \<longrightarrow>
        list_ex installs_hook (new_events w w') \<and>
        (\<exists>p. checkpoint_file a = Some p \<and>
           (checkpoint_frequency a \<noteq> 0 \<longrightarrow>
              (\<forall>q i. EvSaveModel q i \<in> set (new_events w w') \<longleftrightarrow>
                  q = p \<and> 0 \<le> i \<and> i < int (fst (engine env (rank a))) \<and>
                  checkpoint_frequency a dvd i) \<and>
              (0 < fst (engine env (rank a)) \<longrightarrow> p \<in> files w')) \<and>
           (checkpoint_frequency a = 0 \<longrightarrow>
              (\<forall>q i. EvSaveModel q i \<notin> set (new_events w w')) \<and>
              (0 < fst (engine env (rank a)) \<longrightarrow> r = Raises ZeroDivisionError))))"
proof -
  assume run: "actor_train env rabit_args ps dtrain evals kw a w = (r, a', w')"
  let ?k = "fst (engine env (rank a))"
  let ?f = "checkpoint_frequency a"
  from run show ?thesis
  proof (cases rule: actor_train_cases)
    case (early loads)
    from early(1) have ne: "new_events w w' = loads" by (rule new_events_append)
    from loads_only(2)[OF early(2)] early(3) ne show ?thesis by simp
  next
    case (block loads a4 w4 p local_dtrain local_evals kw2 cbs)
    let ?cbs = "cbs @ [SaveCheckpointCallback]"
    let ?tr = "EvXgbTrain ps local_dtrain local_evals (kw_xgb_model kw2) ?cbs"
    have in_cbs: "SaveCheckpointCallback \<in> set ?cbs" by simp
    from block(3) have cfg: "rank a4 = rank a" "checkpoint_frequency a4 = ?f"
      by (simp_all add: same_config_def)
    from block(3,4) have cf4: "checkpoint_file a4 = Some p"
      by (simp add: same_config_checkpoint_file)
    from rabit_block_hook[OF block(5) in_cbs cf4 block(6)]
    show ?thesis
    proof (elim disjE exE conjE)
      fix j
      assume j: "\<not> is_xgb_train j" "\<not> is_save j" "trace w' = trace w4 @ [j]" "\<forall>v. r \<noteq> Returns v"
      from j(3) block(1) have "trace w' = trace w @ (loads @ [j])" by simp
      then have ne: "new_events w w' = loads @ [j]" by (rule new_events_append)
      from loads_only(2)[OF block(2)] j(1) have "\<not> list_ex is_xgb_train (loads @ [j])" by simp
      with ne j(4) show ?thesis by simp
    next
      fix j saves fin
      assume j: "\<not> is_save j" and fin: "list_all (\<lambda>e. \<not> is_save e) fin"
        and tr: "trace w' = trace w4 @ j # ?tr # saves @ fin"
        and nz: "checkpoint_frequency a4 \<noteq> 0 \<longrightarrow>
              set saves = {EvSaveModel p (int i) | i. i < fst (engine env (rank a4)) \<and>
                             checkpoint_frequency a4 dvd int i} \<and>
              (saves \<noteq> [] \<longrightarrow> p \<in> files w')"
        and z: "checkpoint_frequency a4 = 0 \<longrightarrow>
              saves = [] \<and> (0 < fst (engine env (rank a4)) \<longrightarrow> r = Raises ZeroDivisionError)"
      from tr block(1) have "trace w' = trace w @ (loads @ j # ?tr # saves @ fin)" by simp
      then have ne: "new_events w w' = loads @ j # ?tr # saves @ fin" by (rule new_events_append)
      have inv: "list_ex is_xgb_train (new_events w w')" "list_ex installs_hook (new_events w w')"
        by (simp_all add: ne)
      have mem: "EvSaveModel q i \<in> set (new_events w w') \<longleftrightarrow> EvSaveModel q i \<in> set saves" for q i
        using loads_only(1)[OF block(2), of q i] not_save_mem[OF fin, of q i] j
        by (cases j) (auto simp: ne)
      have a: "(\<forall>q i. EvSaveModel q i \<in> set (new_events w w') \<longleftrightarrow>
                  q = p \<and> 0 \<le> i \<and> i < int ?k \<and> ?f dvd i) \<and> (0 < ?k \<longrightarrow> p \<in> files w')"
        if f: "?f \<noteq> 0"
      proof (intro conjI allI impI)
        from nz f cfg have s: "set saves = {EvSaveModel p (int n) | n. n < ?k \<and> ?f dvd int n}"
          and fl: "saves \<noteq> [] \<longrightarrow> p \<in> files w'" by simp_all
        fix q i
        show "EvSaveModel q i \<in> set (new_events w w') \<longleftrightarrow>
                  q = p \<and> 0 \<le> i \<and> i < int ?k \<and> ?f dvd i"
        proof
          assume "EvSaveModel q i \<in> set (new_events w w')"
          with mem s obtain n where "q = p" "i = int n" "n < ?k" "?f dvd int n" by auto
          then show "q = p \<and> 0 \<le> i \<and> i < int ?k \<and> ?f dvd i" by simp
        next
          assume r: "q = p \<and> 0 \<le> i \<and> i < int ?k \<and> ?f dvd i"
          then have "i = int (nat i)" "nat i < ?k" "?f dvd int (nat i)" by (simp_all add: nat_less_iff)
          with r s have "EvSaveModel q i \<in> set saves" by blast
          with mem show "EvSaveModel q i \<in> set (new_events w w')" by simp
        qed
      next
        from nz f cfg have s: "set saves = {EvSaveModel p (int n) | n. n < ?k \<and> ?f dvd int n}"
          and fl: "saves \<noteq> [] \<longrightarrow> p \<in> files w'" by simp_all
        assume "0 < ?k"
        then have "EvSaveModel p (int 0) \<in> set saves" using s by (auto intro!: exI[of _ 0])
        then have "saves \<noteq> []" by auto
        with fl show "p \<in> files w'" by simp
      qed
      have b: "(\<forall>q i. EvSaveModel q i \<notin> set (new_events w w')) \<and>
              (0 < ?k \<longrightarrow> r = Raises ZeroDivisionError)"
        if f: "?f = 0"
        using z f cfg mem by simp
      from block(4) a b have "\<exists>p. checkpoint_file a = Some p \<and>
           (?f \<noteq> 0 \<longrightarrow>
              (\<forall>q i. EvSaveModel q i \<in> set (new_events w w') \<longleftrightarrow>
                  q = p \<and> 0 \<le> i \<and> i < int ?k \<and> ?f dvd i) \<and>
              (0 < ?k \<longrightarrow> p \<in> files w')) \<and>
           (?f = 0 \<longrightarrow>
              (\<forall>q i. EvSaveModel q i \<notin> set (new_events w w')) \<and>
              (0 < ?k \<longrightarrow> r = Raises ZeroDivisionError))"
        by (intro exI[of _ p]) simp
      with inv show ?thesis by simp
    qed
  qed
qed

theorem installed_save_hook_period_witness:
  "EvSaveModel ''/tmp/ckpt_00002.xgb'' 5 \<in> set (new_events empty_world
      (snd (snd (actor_train ok_env [''DMLC_NUM_WORKER=4''] [] 0 [] no_kwargs demo_actor empty_world)))) \<and>
   EvSaveModel ''/tmp/ckpt_00002.xgb'' 3 \<notin> set (new_events empty_world
      (snd (snd (actor_train ok_env [''DMLC_NUM_WORKER=4''] [] 0 [] no_kwargs demo_actor empty_world)))) \<and>
   ''/tmp/ckpt_00002.xgb'' \<in> files
      (snd (snd (actor_train ok_env [''DMLC_NUM_WORKER=4''] [] 0 [] no_kwargs demo_actor empty_world))) \<and>
   list_ex installs_hook (new_events empty_world
      (snd (snd (actor_train ok_env [''DMLC_NUM_WORKER=4''] [] 0 [] no_kwargs demo_actor empty_world)))) \<and>
   fst (actor_train ok_env [''DMLC_NUM_WORKER=4''] [] 0 [] no_kwargs zero_frequency_actor empty_world) =
     Raises ZeroDivisionError"
proof -
  let ?Z = "actor_train ok_env [''DMLC_NUM_WORKER=4''] [] 0 [] no_kwargs zero_frequency_actor empty_world"
  have z: "?Z = (fst ?Z, fst (snd ?Z), snd (snd ?Z))" by simp
  have ez: "list_ex is_xgb_train (new_events empty_world (snd (snd ?Z)))" by code_simp
  have fz: "checkpoint_frequency zero_frequency_actor = 0"
    and kz: "fst (engine ok_env (rank zero_frequency_actor)) = 6"
    by (simp_all add: zero_frequency_actor_def demo_actor_def ok_env_def)
  from installed_save_hook_period[OF z] ez fz kz
  have rz: "fst ?Z = Raises ZeroDivisionError" by simp
  let ?X = "actor_train ok_env [''DMLC_NUM_WORKER=4''] [] 0 [] no_kwargs demo_actor empty_world"
  let ?new = "new_events empty_world (snd (snd ?X))"
  have x: "?X = (fst ?X, fst (snd ?X), snd (snd ?X))" by simp
  have e: "list_ex is_xgb_train ?new" by code_simp
  have c: "checkpoint_file demo_actor = Some ''/tmp/ckpt_00002.xgb''"
    unfolding checkpoint_file_def demo_actor_def by simp code_simp
  have f: "checkpoint_frequency demo_actor = 5" by (simp add: demo_actor_def)
  have k: "fst (engine ok_env (rank demo_actor)) = 6" by (simp add: ok_env_def)
  from installed_save_hook_period[OF x] e c f k
  have h: "list_ex installs_hook ?new"
    and m: "\<forall>q i. EvSaveModel q i \<in> set ?new \<longleftrightarrow>
        q = ''/tmp/ckpt_00002.xgb'' \<and> 0 \<le> i \<and> i < 6 \<and> 5 dvd i"
    and p: "''/tmp/ckpt_00002.xgb'' \<in> files (snd (snd ?X))"
    by simp_all
  from m have "EvSaveModel ''/tmp/ckpt_00002.xgb'' 5 \<in> set ?new"
    and "EvSaveModel ''/tmp/ckpt_00002.xgb'' 3 \<notin> set ?new"
    by simp_all
  with h p rz show ?thesis by blast
qed

section \<open>The retry budget (C3)\<close>

text \<open>
  C3: for a maximal restart count \<open>R \<ge> 0\<close>, \<^verbatim>\<open>train\<close> ends, and the actors created over
  all its attempts number at most \<open>(R + 1) * n\<close>; every attempt creates exactly \<open>n\<close>
  actors, unless it raises before it creates any (and such an error is never a worker
  failure); with \<open>R = 0\<close> a worker failure in the first attempt ends \<^verbatim>\<open>train\<close> with the
  \<^verbatim>\<open>RuntimeError\<close> after that single attempt.
\<close>

theorem retry_budget_bounds_spawns:
  "0 \<le> R \<Longrightarrow>
     (\<exists>res w'. train envs now ps dtrain evals n g R kw w = Some (res, w') \<and>
        spawn_count w' \<le> spawn_count w + (nat R + 1) * n) \<and>
     (\<forall>k w0 r w1. train_attempt envs now ps dtrain evals n g kw k w0 = (r, w1) \<longrightarrow>
        spawn_count w1 = spawn_count w0 + n \<or> (w1 = w0 \<and> (\<exists>e. r = Inl e \<and> e \<noteq> RayActorError))) \<and>
     (R = 0 \<longrightarrow>
        (\<forall>w1. train_attempt envs now ps dtrain evals n g kw 0 w = (Inl RayActorError, w1) \<longrightarrow>
           train envs now ps dtrain evals n g R kw w =
             Some (Inl (RuntimeError (exhausted_message (get_checkpoint_path kw)
                      (str_int (get_checkpoint_frequency kw)))), w1) \<and>
           spawn_count w1 = spawn_count w + n))"
proof (intro conjI allI impI)
  assume R: "0 \<le> R"
  from train_terminates[OF R] obtain y where y: "train envs now ps dtrain evals n g R kw w = Some y"
    by blast
  from train_post[OF y] obtain k where k: "enat k \<le> max_restarts R"
    "spawn_count (snd y) \<le> spawn_count w + (k + 1 - 0) * n"
    unfolding loop_post_def by auto
  from k(1) R have "k \<le> nat R" by (simp add: max_restarts_def)
  then have "(k + 1) * n \<le> (nat R + 1) * n" by (intro mult_le_mono1) simp
  moreover from k(2) have "spawn_count (snd y) \<le> spawn_count w + (k + 1) * n" by simp
  ultimately have "spawn_count (snd y) \<le> spawn_count w + (nat R + 1) * n" by linarith
  with y show "\<exists>res w'. train envs now ps dtrain evals n g R kw w = Some (res, w') \<and>
        spawn_count w' \<le> spawn_count w + (nat R + 1) * n"
    by (intro exI[of _ "fst y"] exI[of _ "snd y"]) simp
next
  fix k w0 r w1
  assume "train_attempt envs now ps dtrain evals n g kw k w0 = (r, w1)"
  then show "spawn_count w1 = spawn_count w0 + n \<or> (w1 = w0 \<and> (\<exists>e. r = Inl e \<and> e \<noteq> RayActorError))"
    unfolding train_attempt_def by (rule call_priv_train_world(5))
next
  fix w1
  assume R0: "R = 0"
    and a: "train_attempt envs now ps dtrain evals n g kw 0 w = (Inl RayActorError, w1)"
  have le0: "enat 0 \<le> max_restarts 0"
    and nle: "\<not> enat (0 + 1) \<le> max_restarts 0"
    by (simp_all add: max_restarts_def zero_enat_def del: enat_0)
  show "train envs now ps dtrain evals n g R kw w =
             Some (Inl (RuntimeError (exhausted_message (get_checkpoint_path kw)
                      (str_int (get_checkpoint_frequency kw)))), w1)"
    unfolding train_def R0
    by (subst train_loop.simps) (simp only: le0 nle a if_True if_False prod.case sum.case refl)
  from call_priv_train_world(5)[OF a[unfolded train_attempt_def]]
  show "spawn_count w1 = spawn_count w + n" by auto
qed

theorem retry_budget_bounds_spawns_witness:
  "(\<exists>res w'. train retry_envs ''1604.5'' [] 0 [(1, ''eval'')] 4 (- 1) 2 no_kwargs empty_world = Some (res, w')
      \<and> spawn_count w' \<le> 12) \<and>
   (\<exists>w1. train (\<lambda>k. crash_env) ''1604.5'' [] 0 [] 2 (- 1) 0 no_kwargs empty_world =
      Some (Inl (RuntimeError (exhausted_message ''/tmp'' ''5'')), w1) \<and> spawn_count w1 = 2)"
proof -
  have s0: "spawn_count empty_world = 0"
    by (simp add: spawn_count_def empty_world_def)
  have a: "(\<exists>res w'. train retry_envs ''1604.5'' [] 0 [(1, ''eval'')] 4 (- 1) 2 no_kwargs empty_world = Some (res, w')
      \<and> spawn_count w' \<le> 12)"
    using retry_budget_bounds_spawns[of 2 retry_envs "''1604.5''" "[]" 0 "[(1, ''eval'')]" 4 "- 1"
        no_kwargs empty_world] s0
    by simp
  have f: "fst (train_attempt (\<lambda>k. crash_env) ''1604.5'' [] 0 [] 2 (- 1) no_kwargs 0 empty_world)
      = Inl RayActorError"
    by code_simp
  obtain w1 where w1: "train_attempt (\<lambda>k. crash_env) ''1604.5'' [] 0 [] 2 (- 1) no_kwargs 0 empty_world
      = (Inl RayActorError, w1)"
    using f by (cases "train_attempt (\<lambda>k. crash_env) ''1604.5'' [] 0 [] 2 (- 1) no_kwargs 0 empty_world") auto
  have p: "get_checkpoint_path no_kwargs = ''/tmp''" "str_int (get_checkpoint_frequency no_kwargs) = ''5''"
    by code_simp+
  have b: "train (\<lambda>k. crash_env) ''1604.5'' [] 0 [] 2 (- 1) 0 no_kwargs empty_world =
      Some (Inl (RuntimeError (exhausted_message ''/tmp'' ''5'')), w1) \<and> spawn_count w1 = 2"
    using retry_budget_bounds_spawns[of 0 "\<lambda>k. crash_env" "''1604.5''" "[]" 0 "[]" 2 "- 1"
        no_kwargs empty_world] w1 s0 p
    by simp
  from a b show ?thesis by blast
qed

section \<open>Errors other than a worker failure (C4)\<close>

text \<open>
  C4: when the attempt made at any value of \<^verbatim>\<open>tries\<close> within the limit raises an error
  other than \<open>RayActorError\<close>, the retry loop ends at once with this very error and the
  world that the attempt left: no further attempt is made. In particular this holds
  for the first attempt of \<^verbatim>\<open>train\<close>.
\<close>

theorem other_errors_propagate:
  "enat tries \<le> max_restarts R \<Longrightarrow>
   train_attempt envs now ps dtrain evals n g kw tries w = (Inl e, w1) \<Longrightarrow>
   e \<noteq> RayActorError \<Longrightarrow>
     train_loop (train_attempt envs now ps dtrain evals n g kw) (max_restarts R)
       (get_checkpoint_path kw) (get_checkpoint_frequency kw) tries w = Some (Inl e, w1) \<and>
     (tries = 0 \<longrightarrow> train envs now ps dtrain evals n g R kw w = Some (Inl e, w1))"
proof -
  assume le: "enat tries \<le> max_restarts R"
    and a: "train_attempt envs now ps dtrain evals n g kw tries w = (Inl e, w1)"
    and e: "e \<noteq> RayActorError"
  have 1: "train_loop (train_attempt envs now ps dtrain evals n g kw) (max_restarts R)
       (get_checkpoint_path kw) (get_checkpoint_frequency kw) tries w = Some (Inl e, w1)"
    by (subst train_loop.simps) (simp add: le a e)
  then show ?thesis by (auto simp: train_def)
qed

theorem other_errors_propagate_witness:
  "(\<exists>w1. train (\<lambda>k. invalid_env) ''1604.5'' [] 0 [] 2 (- 1) 3 no_kwargs empty_world =
      Some (Inl (ExternalError ''Invalid Parameter''), w1) \<and> spawn_count w1 = 2) \<and>
   (\<exists>w1. train (\<lambda>k. load_error_env) ''1604.5'' [] 0 [] 2 (- 1) (- 1) no_kwargs empty_world =
      Some (Inl (ExternalError ''shard unavailable''), w1) \<and> spawn_count w1 = 2)"
proof -
  let ?a1 = "train_attempt (\<lambda>k. invalid_env) ''1604.5'' [] 0 [] 2 (- 1) no_kwargs 0 empty_world"
  let ?a2 = "train_attempt (\<lambda>k. load_error_env) ''1604.5'' [] 0 [] 2 (- 1) no_kwargs 0 empty_world"
  have f1: "fst ?a1 = Inl (ExternalError ''Invalid Parameter'')" and s1: "spawn_count (snd ?a1) = 2"
    by code_simp+
  have f2: "fst ?a2 = Inl (ExternalError ''shard unavailable'')" and s2: "spawn_count (snd ?a2) = 2"
    by code_simp+
  have e1: "?a1 = (Inl (ExternalError ''Invalid Parameter''), snd ?a1)"
    using f1 by (cases ?a1) auto
  have e2: "?a2 = (Inl (ExternalError ''shard unavailable''), snd ?a2)"
    using f2 by (cases ?a2) auto
  have l1: "enat 0 \<le> max_restarts 3" and l2: "enat 0 \<le> max_restarts (- 1)"
    by (simp_all add: max_restarts_def zero_enat_def[symmetric])
  have "train (\<lambda>k. invalid_env) ''1604.5'' [] 0 [] 2 (- 1) 3 no_kwargs empty_world =
      Some (Inl (ExternalError ''Invalid Parameter''), snd ?a1)"
    using other_errors_propagate[OF l1 e1] by simp
  moreover have "train (\<lambda>k. load_error_env) ''1604.5'' [] 0 [] 2 (- 1) (- 1) no_kwargs empty_world =
      Some (Inl (ExternalError ''shard unavailable''), snd ?a2)"
    using other_errors_propagate[OF l2 e2] by simp
  ultimately show ?thesis using s1 s2 by blast
qed

section \<open>Checkpoint files survive failures (C5)\<close>

text \<open>
  C5: an attempt that fails leaves every file that existed before it; a \<^verbatim>\<open>train\<close> that
  fails leaves every file that existed before it; and after a \<^verbatim>\<open>train\<close> that succeeds
  none of the checkpoint files of the ranks \<open>0 .. n - 1\<close> exists.
\<close>

theorem checkpoints_deleted_only_on_success:
  "(train_attempt envs now ps dtrain evals n g kw k w0 = (Inl e, w1) \<longrightarrow> files w0 \<subseteq> files w1) \<and>
   (train envs now ps dtrain evals n g R kw w = Some (Inl e, w') \<longrightarrow> files w \<subseteq> files w') \<and>
   (train envs now ps dtrain evals n g R kw w = Some (Inr v, w') \<longrightarrow>
      (\<forall>i < n. \<forall>p. priv_checkpoint_file (get_checkpoint_path kw) (get_checkpoint_prefix now kw) i = Some p
          \<longrightarrow> p \<notin> files w'))"
proof (intro conjI impI allI)
  assume "train_attempt envs now ps dtrain evals n g kw k w0 = (Inl e, w1)"
  from train_attempt_world[OF this] show "files w0 \<subseteq> files w1" by simp
next
  assume "train envs now ps dtrain evals n g R kw w = Some (Inl e, w')"
  from train_post[OF this] show "files w \<subseteq> files w'" by (simp add: loop_post_def)
next
  fix i p
  assume t: "train envs now ps dtrain evals n g R kw w = Some (Inr v, w')"
    and i: "i < n"
    and p: "priv_checkpoint_file (get_checkpoint_path kw) (get_checkpoint_prefix now kw) i = Some p"
  from train_post[OF t] have "checkpoints_gone now kw n w'" by (simp add: loop_post_def)
  with i p show "p \<notin> files w'" by (auto simp: checkpoints_gone_def rank_files_def)
qed

theorem checkpoints_deleted_only_on_success_witness:
  "(\<exists>e w'. train (\<lambda>k. crash_env) ''1604.5'' [] 0 [] 2 (- 1) 0 no_kwargs resumed_world = Some (Inl e, w')
      \<and> ''/tmp/.xgb_ray_1604.5_00000.xgb'' \<in> files w') \<and>
   (\<exists>v w'. train retry_envs ''1604.5'' [] 0 [] 2 (- 1) 1 no_kwargs resumed_world = Some (Inr v, w')
      \<and> ''/tmp/.xgb_ray_1604.5_00000.xgb'' \<notin> files w' \<and> ''/tmp/.xgb_ray_1604.5_00001.xgb'' \<notin> files w')"
proof -
  let ?t1 = "train (\<lambda>k. crash_env) ''1604.5'' [] 0 [] 2 (- 1) 0 no_kwargs resumed_world"
  let ?t2 = "train retry_envs ''1604.5'' [] 0 [] 2 (- 1) 1 no_kwargs resumed_world"
  have k1: "map_option (isl \<circ> fst) ?t1 = Some True" by code_simp
  have k2: "map_option (isl \<circ> fst) ?t2 = Some False" by code_simp
  from k1 obtain e w1 where t1: "?t1 = Some (Inl e, w1)"
    by (cases ?t1) (auto simp: isl_def)
  from k2 obtain y where y: "?t2 = Some y" "\<not> isl (fst y)"
    by (cases ?t2) auto
  from y(2) obtain v where "fst y = Inr v" by (cases "fst y") auto
  with y(1) obtain w2 where t2: "?t2 = Some (Inr v, w2)"
    by (cases y) auto
  have p: "priv_checkpoint_file (get_checkpoint_path no_kwargs) (get_checkpoint_prefix ''1604.5'' no_kwargs) 0
        = Some ''/tmp/.xgb_ray_1604.5_00000.xgb''"
      "priv_checkpoint_file (get_checkpoint_path no_kwargs) (get_checkpoint_prefix ''1604.5'' no_kwargs) 1
        = Some ''/tmp/.xgb_ray_1604.5_00001.xgb''"
    by code_simp+
  have "files resumed_world \<subseteq> files w1"
    using checkpoints_deleted_only_on_success[of "\<lambda>k. crash_env" "''1604.5''" "[]" 0 "[]" 2 "- 1"
         no_kwargs 0 empty_world e empty_world 0 resumed_world w1] t1
    by simp
  then have a: "''/tmp/.xgb_ray_1604.5_00000.xgb'' \<in> files w1"
    by (auto simp: resumed_world_def)
  have "\<forall>i<2. \<forall>p. priv_checkpoint_file (get_checkpoint_path no_kwargs)
          (get_checkpoint_prefix ''1604.5'' no_kwargs) i = Some p \<longrightarrow> p \<notin> files w2"
    using checkpoints_deleted_only_on_success[of retry_envs "''1604.5''" "[]" 0 "[]" 2 "- 1"
         no_kwargs 0 empty_world RayActorError empty_world 1 resumed_world w2 v] t2
    by simp
  with p have b: "''/tmp/.xgb_ray_1604.5_00000.xgb'' \<notin> files w2 \<and> ''/tmp/.xgb_ray_1604.5_00001.xgb'' \<notin> files w2"
    by (metis one_less_numeral_iff semiring_norm(76) zero_less_numeral)
  from t1 a t2 b show ?thesis by blast
qed

section \<open>The return after the retry loop is never reached (C10)\<close>

text \<open>
  C10: whatever \<^verbatim>\<open>train\<close> yields is an error or the result of a successful attempt,
  never the \<^verbatim>\<open>(None, {})\<close> of the statement after the loop; and for a maximal restart
  count \<open>R \<ge> 0\<close> it does yield one of the two.
\<close>

theorem train_never_falls_through:
  "(train envs now ps dtrain evals n g R kw w = Some (res, w') \<longrightarrow>
      (\<exists>e. res = Inl e) \<or>
      (\<exists>bst ev k w0. res = Inr (Some bst, ev) \<and>
          train_attempt envs now ps dtrain evals n g kw k w0 = (Inr (bst, ev), w'))) \<and>
   (train envs now ps dtrain evals n g R kw w = Some (res, w') \<longrightarrow> res \<noteq> Inr (None, [])) \<and>
   (0 \<le> R \<longrightarrow> (\<exists>y. train envs now ps dtrain evals n g R kw w = Some y))"
proof -
  have 1: "(\<exists>e. res = Inl e) \<or>
      (\<exists>bst ev k w0. res = Inr (Some bst, ev) \<and>
          train_attempt envs now ps dtrain evals n g kw k w0 = (Inr (bst, ev), w'))"
    if t: "train envs now ps dtrain evals n g R kw w = Some (res, w')"
  proof (cases res)
    case (Inl e)
    then show ?thesis by simp
  next
    case (Inr r)
    with train_post[OF t] obtain k w0 bst where
      "fst r = Some bst" "train_attempt envs now ps dtrain evals n g kw k w0 = (Inr (bst, snd r), w')"
      unfolding loop_post_def by auto
    with Inr have "res = Inr (Some bst, snd r) \<and>
        train_attempt envs now ps dtrain evals n g kw k w0 = (Inr (bst, snd r), w')"
      by (cases r) simp
    then show ?thesis by blast
  qed
  then have 2: "res \<noteq> Inr (None, [])" if "train envs now ps dtrain evals n g R kw w = Some (res, w')"
    using that by auto
  from 1 2 train_terminates[of R envs now ps dtrain evals n g kw w] show ?thesis by blast
qed

theorem train_never_falls_through_witness:
  "(\<exists>y. train retry_envs ''1604.5'' [] 0 [] 2 (- 1) 1 no_kwargs empty_world = Some y \<and>
        fst y = Inr (Some 1, [(''train-rmse'', [3, 2, 1])])) \<and>
   (\<exists>y. train (\<lambda>k. crash_env) ''1604.5'' [] 0 [] 2 (- 1) 1 no_kwargs empty_world = Some y \<and>
        fst y \<noteq> Inr (None, []))"
proof -
  let ?t1 = "train retry_envs ''1604.5'' [] 0 [] 2 (- 1) 1 no_kwargs empty_world"
  let ?t2 = "train (\<lambda>k. crash_env) ''1604.5'' [] 0 [] 2 (- 1) 1 no_kwargs empty_world"
  have k1: "map_option fst ?t1 = Some (Inr (Some 1, [(''train-rmse'', [3, 2, 1])]))" by code_simp
  then have a: "\<exists>y. ?t1 = Some y \<and> fst y = Inr (Some 1, [(''train-rmse'', [3, 2, 1])])"
    by (cases ?t1) auto
  have "0 \<le> (1::int) \<longrightarrow> (\<exists>y. ?t2 = Some y)"
    using train_never_falls_through[of "\<lambda>k. crash_env" "''1604.5''" "[]" 0 "[]" 2 "- 1" 1
        no_kwargs empty_world "Inl RayActorError" empty_world]
    by blast
  then obtain y where y: "?t2 = Some y" by auto
  have "fst y \<noteq> Inr (None, [])"
    using train_never_falls_through[of "\<lambda>k. crash_env" "''1604.5''" "[]" 0 "[]" 2 "- 1" 1
        no_kwargs empty_world "fst y" "snd y"] y
    by simp
  with a y show ?thesis by blast
qed

section \<open>The message on retry exhaustion (C2)\<close>

text \<open>
  C2 asks that the error raised when the retries are exhausted report the checkpoint
  directory and the checkpoint prefix. The code fills the second field of the message
  with the checkpoint frequency: for a call without keyword arguments at time
  \<^verbatim>\<open>1604.5\<close>, two actors and no restart, with the actor of rank 1 dying, the message
  reads \<^verbatim>\<open>stored at `/tmp` with prefix `5`\<close>, and the prefix \<^verbatim>\<open>.xgb_ray_1604.5\<close> does
  not occur in it.
\<close>

theorem exhausted_message_names_frequency:
  "map_option fst (train (\<lambda>k. crash_env) ''1604.5'' [] 0 [] 2 (- 1) 0 no_kwargs empty_world) =
     Some (Inl (RuntimeError (exhausted_message ''/tmp'' ''5''))) \<and>
   get_checkpoint_prefix ''1604.5'' no_kwargs = Some ''.xgb_ray_1604.5'' \<and>
   \<not> sublist ''.xgb_ray_1604.5'' (exhausted_message ''/tmp'' ''5'') \<and>
   sublist ''stored at `/tmp` with prefix `5` - you can pass'' (exhausted_message ''/tmp'' ''5'')"
  by code_simp

section \<open>Rendezvous around the engine (C9)\<close>

text \<open>
  C9: the events of a call of the actor's \<^verbatim>\<open>train\<close> are loads of shards, followed, if
  the call reaches the \<^verbatim>\<open>with\<close> statement, by the join whose last argument is
  \<^verbatim>\<open>DMLC_TASK_ID=[xgboost.ray]:\<close> and the identity of the actor, then, if the join
  succeeded, the call of the engine with the checkpoints it saves, and then the
  finalisation, whether the engine returned or raised (only a process that died
  finalises nothing). So the engine is never called before the join, and every call
  that returns or raises after the join has finalised.
\<close>

theorem rendezvous_around_engine:
  "actor_train env rabit_args ps dtrain evals kw a w = (r, a', w') \<Longrightarrow>
     \<exists>evs. trace w' = trace w @ evs \<and> rendezvous_ok rabit_args a r evs"
proof -
  assume run: "actor_train env rabit_args ps dtrain evals kw a w = (r, a', w')"
  have early: "\<exists>evs. trace w' = trace w @ evs \<and> rendezvous_ok rabit_args a r evs"
    if "trace w' = trace w @ loads" "list_all is_load loads" "\<forall>v. r \<noteq> Returns v" for loads
    using that unfolding rendezvous_ok_def Let_def
    by (intro exI[of _ loads] conjI exI[of _ "[]"]) simp_all
  from run[unfolded actor_train_def] show ?thesis
  proof (cases rule: bind_actE)
    case (raised e)
    from act_emitsD[OF act_emits_ensure_loaded raised(1)] raised(2) early show ?thesis by blast
  next
    case died
    from act_emitsD[OF act_emits_ensure_loaded died(1)] died(2) early show ?thesis by blast
  next
    case (ok u a1 w1)
    from act_emitsD[OF act_emits_ensure_loaded ok(1)] obtain e1 where
      1: "trace w1 = trace w @ e1" "list_all is_load e1" "ident a1 = ident a" .
    from ok(2) show ?thesis
    proof (cases rule: bind_actE)
      case (raised e)
      from act_emitsD[OF act_emits_lookup_data[of is_load] raised(1)] obtain e2 where
        "trace w' = trace w1 @ e2" "list_all is_load e2" .
      with 1 have "trace w' = trace w @ (e1 @ e2)" "list_all is_load (e1 @ e2)" by simp_all
      with raised(2) early show ?thesis by blast
    next
      case died
      from act_emitsD[OF act_emits_lookup_data[of is_load] died(1)] obtain e2 where
        "trace w' = trace w1 @ e2" "list_all is_load e2" .
      with 1 have "trace w' = trace w @ (e1 @ e2)" "list_all is_load (e1 @ e2)" by simp_all
      with died(2) early show ?thesis by blast
    next
      case (ok local_dtrain a2 w2)
      from act_emitsD[OF act_emits_lookup_data[of is_load] ok(1)] obtain e2 where
        "trace w2 = trace w1 @ e2" "list_all is_load e2" "ident a2 = ident a1" .
      with 1 have 2: "trace w2 = trace w @ (e1 @ e2)" "list_all is_load (e1 @ e2)" "ident a2 = ident a"
        by simp_all
      from ok(2) show ?thesis
      proof (cases rule: bind_actE)
        case (raised e)
        from act_emitsD[OF act_emits_load_evals raised(1)] obtain e3 where
          "trace w' = trace w2 @ e3" "list_all is_load e3" .
        with 2 have "trace w' = trace w @ (e1 @ e2 @ e3)" "list_all is_load (e1 @ e2 @ e3)" by simp_all
        with raised(2) early show ?thesis by blast
      next
        case died
        from act_emitsD[OF act_emits_load_evals died(1)] obtain e3 where
          "trace w' = trace w2 @ e3" "list_all is_load e3" .
        with 2 have "trace w' = trace w @ (e1 @ e2 @ e3)" "list_all is_load (e1 @ e2 @ e3)" by simp_all
        with died(2) early show ?thesis by blast
      next
        case (ok local_evals a3 w3)
        from act_emitsD[OF act_emits_load_evals ok(1)] obtain e3 where
          "trace w3 = trace w2 @ e3" "list_all is_load e3" "ident a3 = ident a2" .
        with 2 have 3: "trace w3 = trace w @ (e1 @ e2 @ e3)" "list_all is_load (e1 @ e2 @ e3)"
          "ident a3 = ident a"
          by simp_all
        from ok(2) show ?thesis
        proof (cases rule: bind_actE)
          case (raised e)
          from act_emitsD[OF act_emits_checkpoint_exists[of is_load] raised(1)] obtain e4 where
            "trace w' = trace w3 @ e4" "list_all is_load e4" .
          with 3 have "trace w' = trace w @ (e1 @ e2 @ e3 @ e4)" "list_all is_load (e1 @ e2 @ e3 @ e4)"
            by simp_all
          with raised(2) early show ?thesis by blast
        next
          case died
          from act_emitsD[OF act_emits_checkpoint_exists[of is_load] died(1)] obtain e4 where
            "trace w' = trace w3 @ e4" "list_all is_load e4" .
          with 3 have "trace w' = trace w @ (e1 @ e2 @ e3 @ e4)" "list_all is_load (e1 @ e2 @ e3 @ e4)"
            by simp_all
          with died(2) early show ?thesis by blast
        next
          case (ok pe a4 w4)
          from act_emitsD[OF act_emits_checkpoint_exists[of is_load] ok(1)] obtain e4 where
            "trace w4 = trace w3 @ e4" "list_all is_load e4" "ident a4 = ident a3" .
          with 3 have 4: "trace w4 = trace w @ (e1 @ e2 @ e3 @ e4)"
            "list_all is_load (e1 @ e2 @ e3 @ e4)" "ident a4 = ident a"
            by simp_all
          let ?loads = "e1 @ e2 @ e3 @ e4"
          let ?join = "EvRabitInit (rabit_args @ [''DMLC_TASK_ID=[xgboost.ray]:'' @ str_nat (ident a)])"
          obtain kw2 where blk: "rabit_context env (str_nat (ident a)) rabit_args
              (xgb_train env ps local_dtrain local_evals kw2) a4 w4 = (r, a', w')"
            using ok(2) 4(3) by (cases pe) (simp add: Let_def)
          from rabit_block_trace[OF blk]
          have "(\<exists>blk. trace w' = trace w4 @ blk \<and>
              ((blk = [?join] \<and> (\<forall>v. r \<noteq> Returns v)) \<or>
               (\<exists>tr saves. is_xgb_train tr \<and> list_all is_save saves \<and>
                  blk = ?join # tr # saves @ (if r = Dies then [] else [EvRabitFinalize]))))"
            unfolding rabit_task_arg_def by auto
          then obtain blk where
            b: "trace w' = trace w4 @ blk"
              "(blk = [?join] \<and> (\<forall>v. r \<noteq> Returns v)) \<or>
               (\<exists>tr saves. is_xgb_train tr \<and> list_all is_save saves \<and>
                  blk = ?join # tr # saves @ (if r = Dies then [] else [EvRabitFinalize]))"
            by blast
          from b(1) 4(1) have "trace w' = trace w @ (?loads @ blk)" by simp
          moreover have "rendezvous_ok rabit_args a r (?loads @ blk)"
            unfolding rendezvous_ok_def Let_def
            using 4(2) b(2) by (intro exI[of _ ?loads] exI[of _ blk]) simp
          ultimately show ?thesis by blast
        qed
      qed
    qed
  qed
qed

theorem rendezvous_around_engine_witness:
  "rendezvous_ok [''DMLC_NUM_WORKER=4''] demo_actor
      (fst (actor_train ok_env [''DMLC_NUM_WORKER=4''] [] 0 [] no_kwargs demo_actor empty_world))
      (trace (snd (snd (actor_train ok_env [''DMLC_NUM_WORKER=4''] [] 0 [] no_kwargs demo_actor empty_world)))) \<and>
   trace (snd (snd (actor_train ok_env [''DMLC_NUM_WORKER=4''] [] 0 [] no_kwargs demo_actor empty_world))) =
     [EvDataLoad 0 2 4,
      EvRabitInit [''DMLC_NUM_WORKER=4'', ''DMLC_TASK_ID=[xgboost.ray]:9''],
      EvXgbTrain [] (DMatrix [0, 2] [4]) [] None [SaveCheckpointCallback],
      EvSaveModel ''/tmp/ckpt_00002.xgb'' 0,
      EvSaveModel ''/tmp/ckpt_00002.xgb'' 5,
      EvRabitFinalize] \<and>
   fst (actor_train invalid_env [''DMLC_NUM_WORKER=4''] [] 0 [] no_kwargs demo_actor empty_world) =
     Raises (ExternalError ''Invalid Parameter'') \<and>
   trace (snd (snd (actor_train invalid_env [''DMLC_NUM_WORKER=4''] [] 0 [] no_kwargs demo_actor empty_world))) =
     [EvDataLoad 0 2 4,
      EvRabitInit [''DMLC_NUM_WORKER=4'', ''DMLC_TASK_ID=[xgboost.ray]:9''],
      EvXgbTrain [] (DMatrix [0, 2] [4]) [] None [SaveCheckpointCallback],
      EvRabitFinalize]"
proof -
  let ?X = "actor_train ok_env [''DMLC_NUM_WORKER=4''] [] 0 [] no_kwargs demo_actor empty_world"
  have "?X = (fst ?X, fst (snd ?X), snd (snd ?X))" by simp
  from rendezvous_around_engine[OF this] obtain evs where
    "trace (snd (snd ?X)) = trace empty_world @ evs"
    "rendezvous_ok [''DMLC_NUM_WORKER=4''] demo_actor (fst ?X) evs"
    by blast
  then have a: "rendezvous_ok [''DMLC_NUM_WORKER=4''] demo_actor (fst ?X) (trace (snd (snd ?X)))"
    by (simp add: empty_world_def)
  have b: "trace (snd (snd ?X)) =
     [EvDataLoad 0 2 4,
      EvRabitInit [''DMLC_NUM_WORKER=4'', ''DMLC_TASK_ID=[xgboost.ray]:9''],
      EvXgbTrain [] (DMatrix [0, 2] [4]) [] None [SaveCheckpointCallback],
      EvSaveModel ''/tmp/ckpt_00002.xgb'' 0,
      EvSaveModel ''/tmp/ckpt_00002.xgb'' 5,
      EvRabitFinalize]"
    by code_simp
  have c: "fst (actor_train invalid_env [''DMLC_NUM_WORKER=4''] [] 0 [] no_kwargs demo_actor empty_world) =
     Raises (ExternalError ''Invalid Parameter'')"
    by code_simp
  have d: "trace (snd (snd (actor_train invalid_env [''DMLC_NUM_WORKER=4''] [] 0 [] no_kwargs demo_actor empty_world))) =
     [EvDataLoad 0 2 4,
      EvRabitInit [''DMLC_NUM_WORKER=4'', ''DMLC_TASK_ID=[xgboost.ray]:9''],
      EvXgbTrain [] (DMatrix [0, 2] [4]) [] None [SaveCheckpointCallback],
      EvRabitFinalize]"
    by code_simp
  from a b c d show ?thesis by blast
qed

section \<open>Loading a shard twice (C1)\<close>

text \<open>
  C1, as the specification states it, asks that two calls of the actor's
  \<^verbatim>\<open>load_data\<close> for the same handle perform the underlying load once. The method has
  no test of the cache: two calls on the actor of rank 2 perform the load twice.
\<close>

theorem load_data_twice_loads_twice:
  "load_count 0 (snd (snd (load_twice ok_env 0 demo_actor empty_world))) = 2 \<and>
   load_count 0 empty_world = 0 \<and>
   load_count 0 (snd (snd (load_twice ok_env 0 demo_actor empty_world))) \<noteq> load_count 0 empty_world + 1"
  by code_simp

text \<open>
  C1 (amended): every call of \<^verbatim>\<open>load_data\<close> performs the underlying load once, so two
  calls perform it twice; a call that returns has stored the shard under the handle,
  and from then on the guard of \<^verbatim>\<open>train\<close> (\<^verbatim>\<open>if d not in self._data\<close>) performs no
  load for this handle.
\<close>

theorem load_data_loads_on_every_call:
  "load_count d (snd (snd (load_data env d a w))) = load_count d w + 1 \<and>
   load_count d (snd (snd (load_twice env d a w))) = load_count d w + 2 \<and>
   (load_data env d a w = (Returns (), a1, w1) \<longrightarrow>
      data a1 d \<noteq> None \<and> ensure_loaded env d a1 w1 = (Returns (), a1, w1))"
proof (intro conjI impI)
  show "load_count d (snd (snd (load_data env d a w))) = load_count d w + 1"
    by (rule load_data_count)
  obtain r a2 w2 where l: "load_data env d a w = (r, a2, w2)" by (cases "load_data env d a w") auto
  from load_data_count[of d env a w] l have "load_count d w2 = load_count d w + 1" by simp
  with load_data_count[of d env a2 w2] l
  show "load_count d (snd (snd (load_twice env d a w))) = load_count d w + 2"
    by (simp add: load_twice_def)
next
  assume l: "load_data env d a w = (Returns (), a1, w1)"
  then show "data a1 d \<noteq> None"
    by (auto simp: load_data_def Let_def split: outcome.splits prod.splits)
  then show "ensure_loaded env d a1 w1 = (Returns (), a1, w1)"
    by (auto simp: ensure_loaded_def)
qed

theorem load_data_loads_on_every_call_witness:
  "fst (load_data ok_env 0 demo_actor empty_world) = Returns () \<and>
   ensure_loaded ok_env 0 (fst (snd (load_data ok_env 0 demo_actor empty_world)))
       (snd (snd (load_data ok_env 0 demo_actor empty_world))) =
     (Returns (), snd (load_data ok_env 0 demo_actor empty_world)) \<and>
   load_count 0 (snd (snd (load_twice ok_env 0 demo_actor empty_world))) = 2"
proof -
  let ?L = "load_data ok_env 0 demo_actor empty_world"
  have f: "fst ?L = Returns ()" by code_simp
  then have e: "?L = (Returns (), fst (snd ?L), snd (snd ?L))" by (cases ?L) auto
  have z: "load_count 0 empty_world = 0" by (simp add: load_count_def empty_world_def)
  from load_data_loads_on_every_call[of 0 ok_env demo_actor empty_world "fst (snd ?L)" "snd (snd ?L)"] e f z
  show ?thesis by simp
qed

end
